theory Spec2Isabelle
  imports Complex_Main "HOL-Library.AList" "HOL-Library.Sublist"
begin

section \<open>JavaScript values\<close>

text \<open>
  The library \<^verbatim>\<open>copy-clipboard.js\<close> is browser glue code: its functions take and return
  JavaScript values and talk to the DOM and to the Clipboard API. The values the code can
  tell apart are embedded as a datatype. A number is a rational, one of the two infinities
  or \<open>NaN\<close> (negative zero is identified with zero: both are falsy and both are
  \<^verbatim>\<open>== 0\<close>). Objects are a \<^verbatim>\<open>File\<close> with its MIME type, a DOM element, an array, a
  function, or some other object.
\<close>

type_synonym elem = nat

datatype jsnum = Finite rat | PosInfinity | NegInfinity | NaN

datatype jsval =
    JUndefined
  | JNull
  | JBool bool
  | JNum jsnum
  | JStr string
  | JFile string
  | JElement elem
  | JArray "jsval list"
  | JFunction nat
  | JObject nat

text \<open>Truthiness, as \<^verbatim>\<open>!!value\<close>, \<^verbatim>\<open>if (value)\<close> and \<^verbatim>\<open>a || b\<close> read it.\<close>

fun truthy :: "jsval \<Rightarrow> bool" where
  "truthy JUndefined = False"
| "truthy JNull = False"
| "truthy (JBool b) = b"
| "truthy (JNum n) = (n \<noteq> Finite 0 \<and> n \<noteq> NaN)"
| "truthy (JStr s) = (s \<noteq> [])"
| "truthy (JFile t) = True"
| "truthy (JElement e) = True"
| "truthy (JArray xs) = True"
| "truthy (JFunction f) = True"
| "truthy (JObject i) = True"

definition js_or :: "jsval \<Rightarrow> jsval \<Rightarrow> jsval" where
  "js_or a b = (if truthy a then a else b)"

text \<open>
  The three type tests of \<^verbatim>\<open>boolVal\<close>. \<^verbatim>\<open>!!value === value\<close> holds exactly for the two
  booleans. \<^verbatim>\<open>+value === value\<close> holds exactly for a number other than \<open>NaN\<close>: unary plus
  always yields a number, it is the identity on numbers, and \<open>NaN\<close> is not \<^verbatim>\<open>===\<close> to
  itself. \<^verbatim>\<open>''+value === value\<close> holds exactly for strings.
\<close>

fun not_not_is_self :: "jsval \<Rightarrow> bool" where
  "not_not_is_self (JBool b) = True"
| "not_not_is_self v = False"

fun plus_is_self :: "jsval \<Rightarrow> bool" where
  "plus_is_self (JNum n) = (n \<noteq> NaN)"
| "plus_is_self v = False"

fun concat_is_self :: "jsval \<Rightarrow> bool" where
  "concat_is_self (JStr s) = True"
| "concat_is_self v = False"

text \<open>\<^verbatim>\<open>value == 0\<close>, read only where \<open>value\<close> is a number.\<close>

fun loosely_zero :: "jsval \<Rightarrow> bool" where
  "loosely_zero (JNum n) = (n = Finite 0)"
| "loosely_zero v = False"

subsection \<open>Strings\<close>

text \<open>
  Strings are lists of characters, a character standing for one code unit of the
  JavaScript string. The two tables convert the ASCII letters, as every host does.
  \<^verbatim>\<open>toLowerCase\<close> below is used only to compare a string with an ASCII word (\<^verbatim>\<open>true\<close>,
  \<^verbatim>\<open>img\<close>, \<^verbatim>\<open>input\<close>, \<^verbatim>\<open>textarea\<close>, \<^verbatim>\<open>select\<close>); in the host each letter of these words is the
  lower case of itself and of its ASCII capital only, so leaving a character outside ASCII
  as it is decides these comparisons as the host does. Where the code builds a name from converted characters
  (\<^verbatim>\<open>snakeToCamel\<close>), the conversion of a character outside ASCII is the host's.
\<close>

definition ascii_lower_char :: "char \<Rightarrow> char" where
  "ascii_lower_char c =
     (case map_of (zip ''ABCDEFGHIJKLMNOPQRSTUVWXYZ'' ''abcdefghijklmnopqrstuvwxyz'') c of
        Some l \<Rightarrow> l | None \<Rightarrow> c)"

definition ascii_upper_char :: "char \<Rightarrow> char" where
  "ascii_upper_char c =
     (case map_of (zip ''abcdefghijklmnopqrstuvwxyz'' ''ABCDEFGHIJKLMNOPQRSTUVWXYZ'') c of
        Some u \<Rightarrow> u | None \<Rightarrow> c)"

definition is_ascii :: "char \<Rightarrow> bool" where
  "is_ascii c = (of_char c < (128 :: nat))"

definition toLowerCase :: "string \<Rightarrow> string" where
  "toLowerCase s = map ascii_lower_char s"

text \<open>\<^verbatim>\<open>str.split("-")\<close>: never empty; the empty string splits into one empty piece.\<close>

fun split_dash :: "string \<Rightarrow> string list" where
  "split_dash [] = [[]]"
| "split_dash (c # cs) =
     (if c = CHR ''-'' then [] # split_dash cs
      else (case split_dash cs of [] \<Rightarrow> [[c]] | w # ws \<Rightarrow> (c # w) # ws))"

text \<open>\<^verbatim>\<open>s.startsWith(p)\<close>.\<close>

definition startsWith :: "string \<Rightarrow> string \<Rightarrow> bool" where
  "startsWith s p = prefix p s"

section \<open>Option objects\<close>

text \<open>
  An options object is a list of key and value pairs in insertion order, with no key
  twice. Reading a key that is absent gives \<^verbatim>\<open>undefined\<close>. \<^verbatim>\<open>Object.assign\<close> copies the
  sources' keys into the target from left to right: a key the target has keeps its place
  and takes the new value, a new key goes to the end.
\<close>

type_synonym options = "(string \<times> jsval) list"

definition opt_get :: "options \<Rightarrow> string \<Rightarrow> jsval" where
  "opt_get opts k = (case map_of opts k of Some v \<Rightarrow> v | None \<Rightarrow> JUndefined)"

definition object_assign :: "options \<Rightarrow> options list \<Rightarrow> options" where
  "object_assign target sources =
     fold (\<lambda>src acc. fold (\<lambda>(k, v) acc'. AList.update k v acc') src acc) sources target"

definition VERSION :: string where
  "VERSION = ''1.0.2''"

definition DEFAULT_OPTIONS :: options where
  "DEFAULT_OPTIONS =
     [(''target'', JNull),
      (''targetChildren'', JNull),
      (''multiple'', JBool True),
      (''joinText'', JStr [CHR 0x0A]),
      (''images'', JBool True),
      (''value'', JNull),
      (''suppressWarnings'', JBool True),
      (''debug'', JBool False)]"

section \<open>The page: what the code reads from the browser\<close>

text \<open>
  Everything the functions read from the host is a field of one record: the data
  attributes of each element (the own entries of its \<^verbatim>\<open>dataset\<close>, keyed by the camel-case
  name the browser derives from \<^verbatim>\<open>data-*\<close>; attribute values are strings), the two
  selector queries (which throw a \<^verbatim>\<open>SyntaxError\<close> on a selector the browser cannot parse:
  \<open>None\<close>), whether a node is an \<^verbatim>\<open>HTMLElement\<close>, its tag name and its properties, the
  text of the selected option of a \<^verbatim>\<open>select\<close> (\<open>None\<close> when \<^verbatim>\<open>options[selectedIndex]\<close> is
  undefined, so that reading its \<^verbatim>\<open>text\<close> throws), the host's string conversion of a
  value that is not a string, whether the Clipboard API accepts a write, and what
  \<^verbatim>\<open>toUpperCase\<close> and \<^verbatim>\<open>toLowerCase\<close> make of a string of one character that is not
  ASCII (the result may be longer than one character).
\<close>

record dom =
  dataset :: "elem \<Rightarrow> string \<rightharpoonup> string"
  querySelectorAll :: "jsval \<Rightarrow> elem list option"
  querySelectorAllIn :: "elem \<Rightarrow> jsval \<Rightarrow> elem list option"
  isHTMLElement :: "elem \<Rightarrow> bool"
  tagName :: "elem \<Rightarrow> string"
  property :: "elem \<Rightarrow> string \<Rightarrow> jsval"
  selectedOptionText :: "elem \<Rightarrow> jsval option"
  toStringOther :: "jsval \<Rightarrow> string"
  clipboardAccepts :: "jsval \<Rightarrow> bool"
  hostUpperCase :: "char \<Rightarrow> string"
  hostLowerCase :: "char \<Rightarrow> string"

section \<open>snakeToCamel, mergeOptions and boolVal\<close>

text \<open>\<^verbatim>\<open>c.toUpperCase()\<close> and \<^verbatim>\<open>c.toLowerCase()\<close> for a string \<open>c\<close> of one character.\<close>

definition charToUpperCase :: "dom \<Rightarrow> char \<Rightarrow> string" where
  "charToUpperCase d c = (if is_ascii c then [ascii_upper_char c] else hostUpperCase d c)"

definition charToLowerCase :: "dom \<Rightarrow> char \<Rightarrow> string" where
  "charToLowerCase d c = (if is_ascii c then [ascii_lower_char c] else hostLowerCase d c)"

text \<open>\<^verbatim>\<open>v.charAt(0).toUpperCase() + v.slice(1)\<close> and its lower-case twin.\<close>

fun capitalize :: "dom \<Rightarrow> string \<Rightarrow> string" where
  "capitalize d [] = []"
| "capitalize d (c # cs) = charToUpperCase d c @ cs"

fun uncapitalize :: "dom \<Rightarrow> string \<Rightarrow> string" where
  "uncapitalize d [] = []"
| "uncapitalize d (c # cs) = charToLowerCase d c @ cs"

definition snakeToCamel :: "dom \<Rightarrow> string \<Rightarrow> string" where
  "snakeToCamel d str =
     (let stage1 = concat (map (capitalize d) (split_dash str)) in uncapitalize d stage1)"

text \<open>
  A dataset is an object: besides its own entries, one for each \<^verbatim>\<open>data-*\<close> attribute, it
  has the names it inherits from \<^verbatim>\<open>DOMStringMap.prototype\<close> and \<^verbatim>\<open>Object.prototype\<close>. The
  operator \<^verbatim>\<open>in\<close> and a property read see both, an own entry first. The inherited values
  are functions, but for \<^verbatim>\<open>__proto__\<close>, which is the prototype object.
\<close>

definition DATASET_INHERITED :: "(string \<times> jsval) list" where
  "DATASET_INHERITED =
     [(''constructor'', JFunction 100),
      (''toString'', JFunction 101),
      (''toLocaleString'', JFunction 102),
      (''valueOf'', JFunction 103),
      (''hasOwnProperty'', JFunction 104),
      (''isPrototypeOf'', JFunction 105),
      (''propertyIsEnumerable'', JFunction 106),
      (''__defineGetter__'', JFunction 107),
      (''__defineSetter__'', JFunction 108),
      (''__lookupGetter__'', JFunction 109),
      (''__lookupSetter__'', JFunction 110),
      (''__proto__'', JObject 100)]"

text \<open>\<^verbatim>\<open>optionName in target.dataset\<close> and \<^verbatim>\<open>target.dataset[optionName]\<close>.\<close>

definition dataset_in :: "dom \<Rightarrow> elem \<Rightarrow> string \<Rightarrow> bool" where
  "dataset_in d target optionName =
     (case dataset d target optionName of
        Some a \<Rightarrow> True
      | None \<Rightarrow> (case map_of DATASET_INHERITED optionName of Some v \<Rightarrow> True | None \<Rightarrow> False))"

definition dataset_get :: "dom \<Rightarrow> elem \<Rightarrow> string \<Rightarrow> jsval" where
  "dataset_get d target optionName =
     (case dataset d target optionName of
        Some a \<Rightarrow> JStr a
      | None \<Rightarrow> (case map_of DATASET_INHERITED optionName of Some v \<Rightarrow> v | None \<Rightarrow> JUndefined))"

text \<open>
  \<^verbatim>\<open>mergeOptions(target, options, prefix)\<close>: for each key of \<open>options\<close>, in order, the
  result holds \<^verbatim>\<open>target.dataset[optionName]\<close> for the name
  \<^verbatim>\<open>snakeToCamel(`${prefix}${key}`)\<close> when \<^verbatim>\<open>optionName in target.dataset\<close>, and the
  option's own value otherwise. A prefix that is not empty gets a dash appended first.
\<close>

definition dashed :: "string \<Rightarrow> string" where
  "dashed p = (if p \<noteq> [] then p @ ''-'' else p)"

definition mergeOptions :: "dom \<Rightarrow> elem \<Rightarrow> options \<Rightarrow> string \<Rightarrow> options" where
  "mergeOptions d target opts prefix0 =
     (let prefix = dashed prefix0 in
      map (\<lambda>(key, v).
             (let optionName = snakeToCamel d (prefix @ key) in
              if dataset_in d target optionName
              then (key, dataset_get d target optionName)
              else (key, v)))
          opts)"

text \<open>\<^verbatim>\<open>boolVal(value)\<close>, test by test as the source has them.\<close>

definition boolVal :: "jsval \<Rightarrow> bool" where
  "boolVal v =
     (if not_not_is_self v then (case v of JBool b \<Rightarrow> b | _ \<Rightarrow> False)
      else if plus_is_self v then (if loosely_zero v then False else True)
      else if concat_is_self v then (case v of JStr s \<Rightarrow> toLowerCase s = ''true'' | _ \<Rightarrow> False)
      else truthy v)"

section \<open>handlePaste\<close>

text \<open>
  A paste event carries its clipboard data or none, and so does \<^verbatim>\<open>window\<close> (old browsers).
  The clipboard data has an \<^verbatim>\<open>items\<close> list, or none where the browser does not know the
  property, and answers \<^verbatim>\<open>getData("Text")\<close> with a string. An item has a kind, a MIME
  type (\<^verbatim>\<open>item.type\<close>), the value \<^verbatim>\<open>getAsFile()\<close> returns (a file or \<^verbatim>\<open>null\<close>) and the
  string \<^verbatim>\<open>getAsString\<close> hands to its callback.
\<close>

record clipboard_item =
  kind :: string
  mime :: string
  getAsFile :: jsval
  getAsString :: string

record clipboard_data =
  items :: "clipboard_item list option"
  getDataText :: string

record paste_event =
  clipboardData :: "clipboard_data option"

text \<open>A call of one of the option callbacks: the function called and its argument.\<close>

datatype call = Call jsval jsval

definition MSG_NO_CLIPBOARD_DATA :: string where
  "MSG_NO_CLIPBOARD_DATA =
     ''No clipboard data available. Please ensure you have copied something to the clipboard before pasting.''"

definition MSG_NO_FILE :: string where
  "MSG_NO_FILE =
     ''No file found in clipboard data. Please ensure you have copied an image to the clipboard before pasting.''"

definition MSG_NO_TEXT :: string where
  "MSG_NO_TEXT =
     ''No text data found in clipboard data. Please ensure you have copied text to the clipboard before pasting.''"

text \<open>
  The defaults of \<^verbatim>\<open>handlePaste\<close> are three functions: two that do nothing and one that
  prints the error. Functions are told apart by a number.
\<close>

definition PASTE_DEFAULT_OPTIONS :: options where
  "PASTE_DEFAULT_OPTIONS =
     [(''onPasteImage'', JFunction 0),
      (''onPasteText'', JFunction 1),
      (''onError'', JFunction 2)]"

text \<open>\<^verbatim>\<open>if (typeof f === 'function') { f(arg); }\<close>\<close>

fun call_if_function :: "jsval \<Rightarrow> jsval \<Rightarrow> call list" where
  "call_if_function (JFunction f) arg = [Call (JFunction f) arg]"
| "call_if_function v arg = []"

text \<open>
  The loop over \<^verbatim>\<open>clipboardData.items\<close>. It returns from the function at the first item
  that is an image file or plain text. When the list runs out the loop ends, and so does
  the function, with no \<^verbatim>\<open>return\<close> statement: the caller gets \<^verbatim>\<open>undefined\<close>.
\<close>

definition is_image_file :: "clipboard_item \<Rightarrow> bool" where
  "is_image_file item = (kind item = ''file'' \<and> startsWith (mime item) ''image/'')"

definition is_plain_text :: "clipboard_item \<Rightarrow> bool" where
  "is_plain_text item = (kind item = ''string'' \<and> mime item = ''text/plain'')"

fun scan_items :: "options \<Rightarrow> clipboard_item list \<Rightarrow> jsval \<times> call list" where
  "scan_items opts [] = (JUndefined, [])"
| "scan_items opts (item # rest) =
     (if is_image_file item then
        (let file = getAsFile item in
         if \<not> truthy file
         then (JBool False, call_if_function (opt_get opts ''onError'') (JStr MSG_NO_FILE))
         else (JBool True, call_if_function (opt_get opts ''onPasteImage'') file))
      else if is_plain_text item then
        (JBool True, call_if_function (opt_get opts ''onPasteText'') (JStr (getAsString item)))
      else scan_items opts rest)"

definition handlePaste :: "clipboard_data option \<Rightarrow> paste_event \<Rightarrow> options \<Rightarrow> jsval \<times> call list" where
  "handlePaste window_clipboardData event options0 =
     (let opts = object_assign [] [PASTE_DEFAULT_OPTIONS, options0] in
      case (case clipboardData event of Some c \<Rightarrow> Some c | None \<Rightarrow> window_clipboardData) of
        None \<Rightarrow>
          (JBool False, call_if_function (opt_get opts ''onError'') (JStr MSG_NO_CLIPBOARD_DATA))
      | Some cd \<Rightarrow>
          (case items cd of
             Some its \<Rightarrow> scan_items opts its
           | None \<Rightarrow>
               (let pastedData = JStr (getDataText cd) in
                if truthy pastedData
                then (JBool True, call_if_function (opt_get opts ''onPasteText'') pastedData)
                else (JBool False, call_if_function (opt_get opts ''onError'') (JStr MSG_NO_TEXT)))))"

section \<open>copyImageToClipboard\<close>

text \<open>
  What the canvas, the image loader and the clipboard answer: whether an element is an
  \<^verbatim>\<open>HTMLImageElement\<close>, its \<^verbatim>\<open>src\<close>, the blob \<^verbatim>\<open>getBlobFromImage\<close> gets from the element
  itself (\<open>None\<close> when drawing or \<^verbatim>\<open>toBlob\<close> throws, as on a tainted canvas, or when
  \<^verbatim>\<open>toBlob\<close> yields \<^verbatim>\<open>null\<close>: the promise is rejected), whether a new image with
  \<^verbatim>\<open>crossOrigin = 'anonymous'\<close> and a given source loads, the blob got from it once loaded,
  and whether the clipboard takes a blob.
\<close>

type_synonym blob = nat

record imaging =
  isHTMLImageElement :: "elem \<Rightarrow> bool"
  src :: "elem \<Rightarrow> string"
  canvasBlob :: "elem \<Rightarrow> blob option"
  anonymousLoads :: "string \<Rightarrow> bool"
  anonymousBlob :: "string \<Rightarrow> blob option"
  clipboardTakes :: "blob \<Rightarrow> bool"

text \<open>
  What a run does, in order. \<open>CanvasCapture e\<close>: the provided element \<open>e\<close> is drawn on a
  canvas and read back. \<open>NewAnonymousImage u\<close>: \<^verbatim>\<open>new Image()\<close> with
  \<^verbatim>\<open>crossOrigin = 'anonymous'\<close> and \<^verbatim>\<open>src = u\<close>. \<open>LoadedCapture u\<close>: that image has loaded
  and is drawn and read back. The other events are the console lines and the clipboard
  write.
\<close>

datatype image_event =
    CanvasCapture elem
  | NewAnonymousImage string
  | LoadedCapture string
  | WarnRetry
  | ClipboardWrite blob
  | ErrorCopy
  | ErrorFetch

definition anonymous_image :: "imaging \<Rightarrow> string \<Rightarrow> image_event list \<times> blob option" where
  "anonymous_image env u =
     (if anonymousLoads env u
      then ([NewAnonymousImage u, LoadedCapture u], anonymousBlob env u)
      else ([NewAnonymousImage u], None))"

text \<open>
  \<^verbatim>\<open>getImage(imageElement, changeCrossOrigin)\<close>: the events and the blob the promise
  resolves with, \<open>None\<close> when it is rejected or the function throws. A string is taken as
  a URL; anything that is neither a string nor an image element throws.
\<close>

fun getImage :: "imaging \<Rightarrow> jsval \<Rightarrow> bool \<Rightarrow> image_event list \<times> blob option" where
  "getImage env (JStr u) changeCrossOrigin = anonymous_image env u"
| "getImage env (JElement e) changeCrossOrigin =
     (if \<not> isHTMLImageElement env e then ([], None)
      else if changeCrossOrigin then anonymous_image env (src env e)
      else ([CanvasCapture e], canvasBlob env e))"
| "getImage env v changeCrossOrigin = ([], None)"

definition copyImageToClipboard :: "imaging \<Rightarrow> jsval \<Rightarrow> image_event list" where
  "copyImageToClipboard env imageElement =
     (let (t1, blob1) = getImage env imageElement False;
          w = (case blob1 of None \<Rightarrow> [WarnRetry] | Some b \<Rightarrow> []);
          (t2, blob2) = (case blob1 of None \<Rightarrow> getImage env imageElement True | Some b \<Rightarrow> ([], Some b))
      in t1 @ w @ t2 @
         (case blob2 of
            None \<Rightarrow> [ErrorFetch]
          | Some b \<Rightarrow> ClipboardWrite b # (if clipboardTakes env b then [] else [ErrorCopy])))"

text \<open>The attempts of a run to get a picture: the captures of the provided element and
  the fresh images created.\<close>

fun is_attempt :: "image_event \<Rightarrow> bool" where
  "is_attempt (CanvasCapture e) = True"
| "is_attempt (NewAnonymousImage u) = True"
| "is_attempt ev = False"

definition attempts :: "image_event list \<Rightarrow> image_event list" where
  "attempts tr = filter is_attempt tr"

section \<open>copyClipboard\<close>

subsection \<open>The state of the page\<close>

text \<open>
  A copy handler is a closure. It is told apart from every other function by a number
  (\<^verbatim>\<open>removeEventListener\<close> compares functions by identity), and it closes over the
  element, the element's merged options, the options of the call, and the variables
  \<^verbatim>\<open>WARNING\<close> and \<^verbatim>\<open>DEBUG\<close> of the call of \<^verbatim>\<open>copyClipboard\<close> that made it. Those two are
  declared once per call and assigned again for every element of the loop, so a handler
  reads, when it runs, what the call assigned last: they live in a store, one cell per
  call.
\<close>

record handler =
  h_id :: nat
  h_scope :: nat
  h_copyable :: elem
  h_elementOptions :: options
  h_options :: options

text \<open>The object \<^verbatim>\<open>copyClipboard\<close> stores in the element's \<^verbatim>\<open>_copyClipboard\<close> property.\<close>

record copy_record =
  cr_options :: options
  cr_copyHandler :: handler
  cr_version :: string

datatype js_error = SyntaxError | TypeError

datatype warning =
    NoElementsFound jsval
  | NothingToCopy elem
  | UnsupportedValueType
  | NoTargetElements

text \<open>
  The page: the click listeners this library has registered on each element, in the order
  of registration (listeners of other code are never touched), the \<^verbatim>\<open>_copyClipboard\<close>
  property of each element, the warnings printed by \<^verbatim>\<open>console.warn\<close>, the store of the
  \<^verbatim>\<open>WARNING\<close> and \<^verbatim>\<open>DEBUG\<close> variables (true: the variable holds the printing function; false:
  the identity), and the next fresh function and call numbers.
\<close>

record page =
  listeners :: "elem \<Rightarrow> handler list"
  copyClipboardProp :: "elem \<Rightarrow> copy_record option"
  console :: "warning list"
  scopeWARNING :: "nat \<Rightarrow> bool"
  scopeDEBUG :: "nat \<Rightarrow> bool"
  next_function :: nat
  next_scope :: nat

definition initial_page :: page where
  "initial_page =
     \<lparr>listeners = (\<lambda>e. []), copyClipboardProp = (\<lambda>e. None), console = [],
      scopeWARNING = (\<lambda>c. False), scopeDEBUG = (\<lambda>c. False),
      next_function = 0, next_scope = 0\<rparr>"

text \<open>\<^verbatim>\<open>WARNING(...)\<close> in \<^verbatim>\<open>copyClipboard\<close>: prints if the variable of this call holds the
  printing function.\<close>

definition WARNING :: "nat \<Rightarrow> warning \<Rightarrow> page \<Rightarrow> page" where
  "WARNING sc w s = (if scopeWARNING s sc then s\<lparr>console := console s @ [w]\<rparr> else s)"

text \<open>
  \<^verbatim>\<open>removeEventListener('click', f)\<close> drops the listener that is the function \<open>f\<close>.
  \<^verbatim>\<open>addEventListener('click', f)\<close> appends \<open>f\<close>; the function is new, so the browser's
  check for an equal listener finds none.
\<close>

definition removeEventListener :: "handler \<Rightarrow> handler list \<Rightarrow> handler list" where
  "removeEventListener f hs = filter (\<lambda>g. h_id g \<noteq> h_id f) hs"

definition addEventListener :: "handler \<Rightarrow> handler list \<Rightarrow> handler list" where
  "addEventListener f hs = hs @ [f]"

subsection \<open>Binding the elements\<close>

text \<open>
  The body of \<^verbatim>\<open>for (const copyable of elements)\<close>. \<open>sc\<close> is the number of the call and
  \<open>opts\<close> its options after the defaults were filled in.
\<close>

definition nothing_to_copy :: "options \<Rightarrow> bool" where
  "nothing_to_copy elementOptions =
     (\<not> truthy (opt_get elementOptions ''target'') \<and>
      \<not> truthy (opt_get elementOptions ''targetChildren'') \<and>
      \<not> truthy (opt_get elementOptions ''value''))"

definition forget_previous :: "elem \<Rightarrow> page \<Rightarrow> page" where
  "forget_previous copyable s =
     (case copyClipboardProp s copyable of
        Some r \<Rightarrow>
          s\<lparr>listeners := (listeners s)
                (copyable := removeEventListener (cr_copyHandler r) (listeners s copyable)),
            copyClipboardProp := (copyClipboardProp s)(copyable := None)\<rparr>
      | None \<Rightarrow> s)"

definition install :: "nat \<Rightarrow> options \<Rightarrow> options \<Rightarrow> elem \<Rightarrow> page \<Rightarrow> page" where
  "install sc opts elementOptions copyable s =
     (let copyHandler = \<lparr>h_id = next_function s, h_scope = sc, h_copyable = copyable,
                          h_elementOptions = elementOptions, h_options = opts\<rparr>
      in s\<lparr>copyClipboardProp := (copyClipboardProp s)
              (copyable \<mapsto> \<lparr>cr_options = elementOptions, cr_copyHandler = copyHandler,
                              cr_version = VERSION\<rparr>),
            listeners := (listeners s)
              (copyable := addEventListener copyHandler (listeners s copyable)),
            next_function := Suc (next_function s)\<rparr>)"

definition assign_WARNING_DEBUG :: "nat \<Rightarrow> options \<Rightarrow> page \<Rightarrow> page" where
  "assign_WARNING_DEBUG sc elementOptions s =
     s\<lparr>scopeWARNING := (scopeWARNING s)
          (sc := \<not> boolVal (opt_get elementOptions ''suppressWarnings'')),
       scopeDEBUG := (scopeDEBUG s)(sc := boolVal (opt_get elementOptions ''debug''))\<rparr>"

definition bind_copyable :: "dom \<Rightarrow> nat \<Rightarrow> options \<Rightarrow> elem \<Rightarrow> page \<Rightarrow> page" where
  "bind_copyable d sc opts copyable s =
     (let elementOptions = mergeOptions d copyable opts ''copy'';
          s1 = assign_WARNING_DEBUG sc elementOptions s
      in if nothing_to_copy elementOptions
         then WARNING sc (NothingToCopy copyable) s1
         else install sc opts elementOptions copyable (forget_previous copyable s1))"

text \<open>
  \<^verbatim>\<open>copyClipboard(element, options)\<close>. A selector the browser cannot parse makes
  \<^verbatim>\<open>querySelectorAll\<close> throw, and the call with it. An argument that is neither a string
  nor an \<^verbatim>\<open>HTMLElement\<close> leaves the list of elements empty.
\<close>

definition find_elements :: "dom \<Rightarrow> jsval \<Rightarrow> elem list option" where
  "find_elements d element =
     (case element of
        JStr selector \<Rightarrow> querySelectorAll d element
      | JElement e \<Rightarrow> Some (if isHTMLElement d e then [e] else [])
      | _ \<Rightarrow> Some [])"

definition enter_call :: "options \<Rightarrow> page \<Rightarrow> page" where
  "enter_call opts s =
     s\<lparr>scopeWARNING := (scopeWARNING s)
          (next_scope s := \<not> boolVal (opt_get opts ''suppressWarnings'')),
       scopeDEBUG := (scopeDEBUG s)(next_scope s := boolVal (opt_get opts ''debug'')),
       next_scope := Suc (next_scope s)\<rparr>"

definition copyClipboard :: "dom \<Rightarrow> jsval \<Rightarrow> options \<Rightarrow> page \<Rightarrow> js_error + page" where
  "copyClipboard d element options0 s =
     (let opts = object_assign [] [DEFAULT_OPTIONS, options0];
          sc = next_scope s;
          s0 = enter_call opts s
      in case find_elements d element of
           None \<Rightarrow> Inl SyntaxError
         | Some elements \<Rightarrow>
             if length elements = 0 then Inr (WARNING sc (NoElementsFound element) s0)
             else Inr (fold (bind_copyable d sc opts) elements s0))"

subsection \<open>The click handler\<close>

datatype debug_message =
    ImageCopiedFromFile
  | CopyingFirstTarget elem
  | CopyingAllTargets "elem list"

datatype failure = FailedToCopyText | FailedToCopyImage

text \<open>
  What a handler does when it runs: console lines, the two calls of the Clipboard API
  (\<^verbatim>\<open>writeText(text)\<close> and \<^verbatim>\<open>write([item])\<close> with the file of the item), and the call of
  \<^verbatim>\<open>copyImageToClipboard\<close> on a target, which is not awaited.
\<close>

datatype effect =
    ConsoleWarn warning
  | ConsoleLog debug_message
  | ConsoleError failure
  | ClipboardWriteText jsval
  | ClipboardWriteItem jsval
  | CopyImage elem

datatype completion = Returned | Threw js_error

definition copyTextToClipboard :: "dom \<Rightarrow> jsval \<Rightarrow> effect list" where
  "copyTextToClipboard d text =
     ClipboardWriteText text #
     (if clipboardAccepts d text then [] else [ConsoleError FailedToCopyText])"

text \<open>
  \<^verbatim>\<open>Array.prototype.join\<close>: the separator is a comma when \<^verbatim>\<open>undefined\<close> and the string
  conversion of the argument otherwise; \<^verbatim>\<open>undefined\<close> and \<^verbatim>\<open>null\<close> entries give the empty
  string.
\<close>

definition ToString :: "dom \<Rightarrow> jsval \<Rightarrow> string" where
  "ToString d v = (case v of JStr s \<Rightarrow> s | _ \<Rightarrow> toStringOther d v)"

fun join_strings :: "string \<Rightarrow> string list \<Rightarrow> string" where
  "join_strings sep [] = []"
| "join_strings sep [x] = x"
| "join_strings sep (x # y # ys) = x @ sep @ join_strings sep (y # ys)"

definition js_join :: "dom \<Rightarrow> jsval list \<Rightarrow> jsval \<Rightarrow> string" where
  "js_join d xs separator =
     join_strings (if separator = JUndefined then '','' else ToString d separator)
       (map (\<lambda>x. if x = JUndefined \<or> x = JNull then [] else ToString d x) xs)"

text \<open>
  The text the loop pushes for a target it does not copy as an image, by tag name.
  \<open>None\<close>: the target is a \<^verbatim>\<open>select\<close> without a selected option, and reading
  \<^verbatim>\<open>options[selectedIndex].text\<close> throws a \<^verbatim>\<open>TypeError\<close>.
\<close>

definition elementText :: "dom \<Rightarrow> elem \<Rightarrow> jsval option" where
  "elementText d targetElement =
     (let tag = toLowerCase (tagName d targetElement); p = property d targetElement in
      if tag = ''input'' \<or> tag = ''textarea'' then Some (js_or (p ''value'') (JStr []))
      else if tag = ''select'' then
        (case selectedOptionText d targetElement of
           None \<Rightarrow> None
         | Some text \<Rightarrow> Some (js_or text (JStr [])))
      else if tag = ''img'' then
        Some (js_or (js_or (js_or (p ''alt'') (p ''title'')) (p ''src'')) (JStr []))
      else
        Some (js_or (js_or (js_or (js_or (js_or (p ''innerText'') (p ''textContent''))
                (p ''value'')) (p ''text'')) (p ''alt'')) (JStr [])))"

definition is_img :: "dom \<Rightarrow> elem \<Rightarrow> bool" where
  "is_img d targetElement = (toLowerCase (tagName d targetElement) = ''img'')"

text \<open>
  \<^verbatim>\<open>for (const targetElement of targetElements)\<close>: the handler returns at the first
  image when images are to be copied, dropping the texts collected so far.
\<close>

datatype scan_result = FoundImage elem | Texts "jsval list" | ScanThrew

fun scan_targets :: "dom \<Rightarrow> bool \<Rightarrow> elem list \<Rightarrow> jsval list \<Rightarrow> scan_result" where
  "scan_targets d images [] resultingTexts = Texts resultingTexts"
| "scan_targets d images (targetElement # rest) resultingTexts =
     (if images \<and> is_img d targetElement then FoundImage targetElement
      else (case elementText d targetElement of
              None \<Rightarrow> ScanThrew
            | Some text \<Rightarrow> scan_targets d images rest (resultingTexts @ [text])))"

text \<open>The branch of the handler for \<^verbatim>\<open>elementOptions.value\<close>. It looks at
  \<^verbatim>\<open>options.value\<close> and \<^verbatim>\<open>options.images\<close>, the options of the call.\<close>

definition copy_value :: "dom \<Rightarrow> bool \<Rightarrow> bool \<Rightarrow> options \<Rightarrow> effect list" where
  "copy_value d warn debug opts =
     (let v = opt_get opts ''value'' in
      if truthy (opt_get opts ''images'') \<and>
         (case v of JFile t \<Rightarrow> startsWith t ''image/'' | _ \<Rightarrow> False)
      then ClipboardWriteItem v #
             (if clipboardAccepts d v
              then (if debug then [ConsoleLog ImageCopiedFromFile] else [])
              else [ConsoleError FailedToCopyImage])
      else (case v of
              JStr t \<Rightarrow> copyTextToClipboard d v
            | JNum n \<Rightarrow> copyTextToClipboard d v
            | JElement e \<Rightarrow>
                if isHTMLElement d e
                then copyTextToClipboard d (js_or (property d e ''innerText'') (property d e ''textContent''))
                else (if warn then [ConsoleWarn UnsupportedValueType] else [])
            | JArray xs \<Rightarrow> copyTextToClipboard d (JStr (js_join d xs (JStr [CHR 0x0A])))
            | _ \<Rightarrow> (if warn then [ConsoleWarn UnsupportedValueType] else [])))"

text \<open>The targets: those of \<^verbatim>\<open>document.querySelectorAll(target)\<close>, then those of
  \<^verbatim>\<open>copyable.querySelectorAll(targetChildren)\<close>; \<open>None\<close> when a query throws.\<close>

definition collect_targets :: "dom \<Rightarrow> elem \<Rightarrow> options \<Rightarrow> elem list option" where
  "collect_targets d copyable elementOptions =
     (case (if truthy (opt_get elementOptions ''target'')
            then querySelectorAll d (opt_get elementOptions ''target'') else Some []) of
        None \<Rightarrow> None
      | Some targets \<Rightarrow>
          (case (if truthy (opt_get elementOptions ''targetChildren'')
                 then querySelectorAllIn d copyable (opt_get elementOptions ''targetChildren'')
                 else Some []) of
             None \<Rightarrow> None
           | Some targetChildren \<Rightarrow> Some (targets @ targetChildren)))"

text \<open>The targets the loop runs over, and the line \<^verbatim>\<open>DEBUG\<close> prints about them.\<close>

definition select_targets :: "options \<Rightarrow> elem list \<Rightarrow> elem list" where
  "select_targets elementOptions targets =
     (if \<not> boolVal (opt_get elementOptions ''multiple'') then [hd targets] else targets)"

definition debug_targets :: "bool \<Rightarrow> options \<Rightarrow> elem list \<Rightarrow> effect list" where
  "debug_targets debug elementOptions targets =
     (if \<not> debug then []
      else if \<not> boolVal (opt_get elementOptions ''multiple'')
      then [ConsoleLog (CopyingFirstTarget (hd targets))]
      else [ConsoleLog (CopyingAllTargets targets)])"

definition copy_targets :: "dom \<Rightarrow> bool \<Rightarrow> bool \<Rightarrow> elem \<Rightarrow> options \<Rightarrow> effect list \<times> completion" where
  "copy_targets d warn debug copyable elementOptions =
     (case collect_targets d copyable elementOptions of
        None \<Rightarrow> ([], Threw SyntaxError)
      | Some targets \<Rightarrow>
          if length targets = 0 then ((if warn then [ConsoleWarn NoTargetElements] else []), Returned)
          else
            (let targetElements = select_targets elementOptions targets;
                 said = debug_targets debug elementOptions targets
             in case scan_targets d (boolVal (opt_get elementOptions ''images'')) targetElements [] of
                  FoundImage targetElement \<Rightarrow> (said @ [CopyImage targetElement], Returned)
                | ScanThrew \<Rightarrow> (said, Threw TypeError)
                | Texts resultingTexts \<Rightarrow>
                    (said @
                     (if length resultingTexts > 0
                      then copyTextToClipboard d
                             (JStr (js_join d resultingTexts (opt_get elementOptions ''joinText'')))
                      else []),
                     Returned)))"

text \<open>The handler, run on the page as it is at the click.\<close>

definition copyHandler :: "dom \<Rightarrow> page \<Rightarrow> handler \<Rightarrow> effect list \<times> completion" where
  "copyHandler d s h =
     (let warn = scopeWARNING s (h_scope h); debug = scopeDEBUG s (h_scope h) in
      if truthy (opt_get (h_elementOptions h) ''value'')
      then (copy_value d warn debug (h_options h), Returned)
      else copy_targets d warn debug (h_copyable h) (h_elementOptions h))"

text \<open>A click on an element runs its listeners in order.\<close>

definition click :: "dom \<Rightarrow> page \<Rightarrow> elem \<Rightarrow> (effect list \<times> completion) list" where
  "click d s e = map (copyHandler d s) (listeners s e)"

subsection \<open>The DOMContentLoaded listener\<close>

definition AUTO_SELECTOR :: string where
  "AUTO_SELECTOR = ''[data-copy-target],[data-copy-value],[data-copy-target-children]''"

fun forEach :: "('a \<Rightarrow> page \<Rightarrow> js_error + page) \<Rightarrow> 'a list \<Rightarrow> page \<Rightarrow> js_error + page" where
  "forEach f [] s = Inr s"
| "forEach f (x # xs) s = (case f x s of Inl err \<Rightarrow> Inl err | Inr s' \<Rightarrow> forEach f xs s')"

definition onDOMContentLoaded :: "dom \<Rightarrow> page \<Rightarrow> js_error + page" where
  "onDOMContentLoaded d s =
     (case querySelectorAll d (JStr AUTO_SELECTOR) of
        None \<Rightarrow> Inl SyntaxError
      | Some copyableElements \<Rightarrow>
          forEach (\<lambda>element. copyClipboard d (JElement element)
                     (mergeOptions d element DEFAULT_OPTIONS ''copy''))
                  copyableElements s)"

subsection \<open>Well-formed pages\<close>

text \<open>
  An element is well bound when its \<^verbatim>\<open>_copyClipboard\<close> property and its click listeners
  agree: without the property it has no copy handler; with it, its one copy handler is the
  recorded one, made for this element, and the recorded options are the handler's merged
  options. A page is well formed when every element is well bound and every registered
  function is older than the next fresh one.
\<close>

definition well_bound :: "page \<Rightarrow> elem \<Rightarrow> bool" where
  "well_bound s e =
     (case copyClipboardProp s e of
        None \<Rightarrow> listeners s e = []
      | Some r \<Rightarrow>
          listeners s e = [cr_copyHandler r] \<and>
          cr_options r = h_elementOptions (cr_copyHandler r) \<and>
          h_copyable (cr_copyHandler r) = e)"

definition page_ok :: "page \<Rightarrow> bool" where
  "page_ok s = (\<forall>e. well_bound s e \<and> (\<forall>h \<in> set (listeners s e). h_id h < next_function s))"

text \<open>The handler and the record \<^verbatim>\<open>copyClipboard\<close> makes for an element, given the number
  of the function, the number of the call and the options of the call.\<close>

definition handler_for :: "dom \<Rightarrow> nat \<Rightarrow> nat \<Rightarrow> options \<Rightarrow> elem \<Rightarrow> handler" where
  "handler_for d n sc opts e =
     \<lparr>h_id = n, h_scope = sc, h_copyable = e,
      h_elementOptions = mergeOptions d e opts ''copy'', h_options = opts\<rparr>"

definition record_for :: "dom \<Rightarrow> nat \<Rightarrow> nat \<Rightarrow> options \<Rightarrow> elem \<Rightarrow> copy_record" where
  "record_for d n sc opts e =
     \<lparr>cr_options = mergeOptions d e opts ''copy'',
      cr_copyHandler = handler_for d n sc opts e,
      cr_version = VERSION\<rparr>"

text \<open>
  An element is bound by call \<open>sc\<close> with options \<open>opts\<close> when its one listener is the
  handler of that call for it, made as function number \<open>m\<close> or later, and its
  \<^verbatim>\<open>_copyClipboard\<close> property is the record of that handler.
\<close>

definition bound_by :: "dom \<Rightarrow> nat \<Rightarrow> options \<Rightarrow> nat \<Rightarrow> page \<Rightarrow> elem \<Rightarrow> bool" where
  "bound_by d sc opts m s e =
     (case listeners s e of
        [h] \<Rightarrow> m \<le> h_id h \<and> h = handler_for d (h_id h) sc opts e \<and>
               copyClipboardProp s e = Some (record_for d (h_id h) sc opts e)
      | _ \<Rightarrow> False)"

text \<open>An element is bound with options \<open>opts\<close> when some call with these options has
  bound it.\<close>

definition bound_with :: "dom \<Rightarrow> options \<Rightarrow> page \<Rightarrow> elem \<Rightarrow> bool" where
  "bound_with d opts s e =
     (case listeners s e of
        [h] \<Rightarrow> bound_by d (h_scope h) opts 0 s e
      | _ \<Rightarrow> False)"

text \<open>An element carries a data attribute with a value that is not empty (the key is the
  attribute's name in the dataset).\<close>

definition filled :: "dom \<Rightarrow> elem \<Rightarrow> string \<Rightarrow> bool" where
  "filled d e k = (case dataset d e k of Some a \<Rightarrow> a \<noteq> [] | None \<Rightarrow> False)"

section \<open>Example pages\<close>

text \<open>Concrete pages and environments, on which the theorems below are instantiated.\<close>

text \<open>A button with \<^verbatim>\<open>data-copy-multiple="1"\<close> and \<^verbatim>\<open>data-copy-target="#text"\<close>.\<close>

definition page_multiple :: dom where
  "page_multiple =
     \<lparr>dataset = (\<lambda>e. if e = 1 then [''copyMultiple'' \<mapsto> ''1'', ''copyTarget'' \<mapsto> ''#text'']
                         else Map.empty),
      querySelectorAll = (\<lambda>v. Some []),
      querySelectorAllIn = (\<lambda>e v. Some []),
      isHTMLElement = (\<lambda>e. True),
      tagName = (\<lambda>e. ''BUTTON''),
      property = (\<lambda>e k. JUndefined),
      selectedOptionText = (\<lambda>e. None),
      toStringOther = (\<lambda>v. []),
      clipboardAccepts = (\<lambda>v. True),
      hostUpperCase = (\<lambda>c. [c]),
      hostLowerCase = (\<lambda>c. [c])\<rparr>"

text \<open>An image, element 7, whose canvas is tainted; every anonymous reload works.\<close>

definition studio :: imaging where
  "studio =
     \<lparr>isHTMLImageElement = (\<lambda>e. e = 7),
      src = (\<lambda>e. ''https://example.org/cat.png''),
      canvasBlob = (\<lambda>e. None),
      anonymousLoads = (\<lambda>u. True),
      anonymousBlob = (\<lambda>u. Some 1),
      clipboardTakes = (\<lambda>b. True)\<rparr>"

text \<open>
  A page with four buttons and a paragraph. Button 1 has \<^verbatim>\<open>data-copy-target="#text"\<close>,
  button 2 has no data attribute, button 3 has \<^verbatim>\<open>data-copy-value="hello"\<close>, button 4 has
  an empty \<^verbatim>\<open>data-copy-target\<close>. Element 10 is the paragraph \<^verbatim>\<open>#text\<close>, which reads
  \<^verbatim>\<open>Hello\<close>. Nothing matches \<^verbatim>\<open>#missing\<close>.
\<close>

definition demo_page :: dom where
  "demo_page =
     \<lparr>dataset = (\<lambda>e. if e = 1 then [''copyTarget'' \<mapsto> ''#text'']
                         else if e = 3 then [''copyValue'' \<mapsto> ''hello'']
                         else if e = 4 then [''copyTarget'' \<mapsto> []]
                         else Map.empty),
      querySelectorAll = (\<lambda>v. if v = JStr ''button'' then Some [1, 2, 3, 4]
                                  else if v = JStr ''#text'' then Some [10]
                                  else if v = JStr AUTO_SELECTOR then Some [1, 3, 4]
                                  else Some []),
      querySelectorAllIn = (\<lambda>e v. Some []),
      isHTMLElement = (\<lambda>e. True),
      tagName = (\<lambda>e. if e = 10 then ''P'' else ''BUTTON''),
      property = (\<lambda>e k. if e = 10 \<and> (k = ''innerText'' \<or> k = ''textContent'')
                            then JStr ''Hello'' else JUndefined),
      selectedOptionText = (\<lambda>e. None),
      toStringOther = (\<lambda>v. []),
      clipboardAccepts = (\<lambda>v. True),
      hostUpperCase = (\<lambda>c. [c]),
      hostLowerCase = (\<lambda>c. [c])\<rparr>"

text \<open>
  A gallery. Button 1 has \<^verbatim>\<open>data-copy-target=".item"\<close>, and \<^verbatim>\<open>.item\<close> matches a caption
  (21), a picture (20) and a second caption (22), in this order.
\<close>

definition gallery_page :: dom where
  "gallery_page =
     \<lparr>dataset = (\<lambda>e. if e = 1 then [''copyTarget'' \<mapsto> ''.item''] else Map.empty),
      querySelectorAll = (\<lambda>v. if v = JStr ''.item'' then Some [21, 20, 22] else Some []),
      querySelectorAllIn = (\<lambda>e v. Some []),
      isHTMLElement = (\<lambda>e. True),
      tagName = (\<lambda>e. if e = 20 then ''IMG'' else if e = 1 then ''BUTTON'' else ''SPAN''),
      property = (\<lambda>e k. if e = 21 \<and> k = ''innerText'' then JStr ''Sunset''
                            else if e = 22 \<and> k = ''innerText'' then JStr ''Harbour''
                            else if e = 20 \<and> k = ''alt'' then JStr ''A boat''
                            else JUndefined),
      selectedOptionText = (\<lambda>e. None),
      toStringOther = (\<lambda>v. []),
      clipboardAccepts = (\<lambda>v. True),
      hostUpperCase = (\<lambda>c. [c]),
      hostLowerCase = (\<lambda>c. [c])\<rparr>"

text \<open>A button, element 5, with \<^verbatim>\<open>data-copy-images="false"\<close>.\<close>

definition page_images :: dom where
  "page_images =
     \<lparr>dataset = (\<lambda>e. if e = 5 then [''copyImages'' \<mapsto> ''false''] else Map.empty),
      querySelectorAll = (\<lambda>v. Some []),
      querySelectorAllIn = (\<lambda>e v. Some []),
      isHTMLElement = (\<lambda>e. True),
      tagName = (\<lambda>e. ''BUTTON''),
      property = (\<lambda>e k. JUndefined),
      selectedOptionText = (\<lambda>e. None),
      toStringOther = (\<lambda>v. []),
      clipboardAccepts = (\<lambda>v. True),
      hostUpperCase = (\<lambda>c. [c]),
      hostLowerCase = (\<lambda>c. [c])\<rparr>"

section \<open>Properties of boolVal and mergeOptions\<close>

lemma boolVal_bool [simp]: "boolVal (JBool b) = b"
  by (simp add: boolVal_def)

lemma boolVal_num [simp]: "boolVal (JNum n) = (n \<noteq> Finite 0 \<and> n \<noteq> NaN)"
  by (cases n) (simp_all add: boolVal_def)

lemma boolVal_str [simp]: "boolVal (JStr s) = (toLowerCase s = ''true'')"
  by (simp add: boolVal_def)

lemma map_fst_mergeOptions: "map fst (mergeOptions d t opts p) = map fst opts"
  by (induction opts) (auto simp: mergeOptions_def Let_def)

lemma map_of_mergeOptions:
  "map_of (mergeOptions d t opts p) k =
     (case map_of opts k of
        None \<Rightarrow> None
      | Some v \<Rightarrow>
          Some (if dataset_in d t (snakeToCamel d (dashed p @ k))
                then dataset_get d t (snakeToCamel d (dashed p @ k)) else v))"
  by (induction opts) (auto simp: mergeOptions_def Let_def)

lemma opt_get_mergeOptions:
  "k \<in> fst ` set opts \<Longrightarrow>
   opt_get (mergeOptions d t opts p) k =
     (if dataset_in d t (snakeToCamel d (dashed p @ k))
      then dataset_get d t (snakeToCamel d (dashed p @ k))
      else opt_get opts k)"
  by (auto simp: opt_get_def map_of_mergeOptions map_of_eq_None_iff split: option.splits)

text \<open>Under the prefix \<^verbatim>\<open>copy\<close> the name starts with \<^verbatim>\<open>copy\<close>, and a dataset inherits no
  such name: only the element's own data attributes are read.\<close>

lemma split_dash_copy: "split_dash (''copy-'' @ k) = ''copy'' # split_dash k"
  by simp

lemma snakeToCamel_copy:
  "snakeToCamel d (''copy-'' @ k) = ''copy'' @ concat (map (capitalize d) (split_dash k))"
proof -
  have "capitalize d ''copy'' = ''Copy''"
    by (simp add: charToUpperCase_def is_ascii_def ascii_upper_char_def)
  moreover have "uncapitalize d (''Copy'' @ r) = ''copy'' @ r" for r
    by (simp add: charToLowerCase_def is_ascii_def ascii_lower_char_def)
  ultimately show ?thesis
    unfolding snakeToCamel_def Let_def split_dash_copy by simp
qed

lemma copy_not_inherited: "map_of DATASET_INHERITED (''copy'' @ r) = None"
  by (simp add: DATASET_INHERITED_def)

lemma dataset_copy:
  "dataset_in d t (snakeToCamel d (''copy-'' @ k)) =
     (dataset d t (snakeToCamel d (''copy-'' @ k)) \<noteq> None)"
  "dataset_get d t (snakeToCamel d (''copy-'' @ k)) =
     (case dataset d t (snakeToCamel d (''copy-'' @ k)) of Some a \<Rightarrow> JStr a | None \<Rightarrow> JUndefined)"
  unfolding snakeToCamel_copy dataset_in_def dataset_get_def copy_not_inherited
  by (simp_all split: option.splits)

lemma dashed_copy: "dashed ''copy'' @ k = ''copy-'' @ k"
  by (simp add: dashed_def)

lemma opt_get_mergeOptions_copy:
  "k \<in> fst ` set opts \<Longrightarrow>
   opt_get (mergeOptions d t opts ''copy'') k =
     (case dataset d t (snakeToCamel d (''copy-'' @ k)) of
        Some a \<Rightarrow> JStr a
      | None \<Rightarrow> opt_get opts k)"
  unfolding opt_get_mergeOptions dashed_copy dataset_copy
  by (simp split: option.splits)

lemma snakeToCamel_copy_target: "snakeToCamel d ''copy-target'' = ''copyTarget''"
  by code_simp

lemma snakeToCamel_copy_targetChildren:
  "snakeToCamel d ''copy-targetChildren'' = ''copyTargetChildren''"
  by code_simp

lemma snakeToCamel_copy_value: "snakeToCamel d ''copy-value'' = ''copyValue''"
  by code_simp

text \<open>
  \<^verbatim>\<open>boolVal\<close> by the type of its argument. A boolean is returned as it is. A number gives
  true exactly when it is neither zero nor \<open>NaN\<close>. A string gives true exactly when it is
  \<^verbatim>\<open>true\<close> in some casing. For an option that an element overrides by its \<^verbatim>\<open>data-copy-*\<close>
  attribute with a value that is not a casing of \<^verbatim>\<open>true\<close>, \<^verbatim>\<open>boolVal\<close> of the merged option
  is false.
\<close>

lemma boolVal_by_type:
  "boolVal (JBool b) = b \<and>
   boolVal (JNum n) = (n \<noteq> Finite 0 \<and> n \<noteq> NaN) \<and>
   boolVal (JStr s) = (toLowerCase s = ''true'') \<and>
   boolVal (JStr ''1'') = False \<and>
   boolVal (JStr ''yes'') = False \<and>
   (\<forall>k a. k \<in> fst ` set opts \<and> dataset d e (snakeToCamel d (''copy-'' @ k)) = Some a \<and>
          toLowerCase a \<noteq> ''true'' \<longrightarrow>
          \<not> boolVal (opt_get (mergeOptions d e opts ''copy'') k))"
proof -
  have one: "boolVal (JStr ''1'') = False"
    by (simp add: toLowerCase_def)
  have yes: "boolVal (JStr ''yes'') = False"
    by (simp add: toLowerCase_def ascii_lower_char_def)
  have attr: "\<not> boolVal (opt_get (mergeOptions d e opts ''copy'') k)"
    if "k \<in> fst ` set opts" "dataset d e (snakeToCamel d (''copy-'' @ k)) = Some a"
       "toLowerCase a \<noteq> ''true''" for k a
    using that by (simp add: opt_get_mergeOptions_copy)
  show ?thesis
    using one yes attr by simp
qed

text \<open>
  C8 (the code at the failing inputs). \<open>NaN\<close> is a number and is not zero, and \<^verbatim>\<open>boolVal\<close>
  maps it to false. Button 5 carries \<^verbatim>\<open>data-copy-images="false"\<close>, so that \<^verbatim>\<open>boolVal\<close> of
  its merged \<^verbatim>\<open>images\<close> option is false; bound with an image file as the value, it still
  copies the file as an image at a click, because the value branch of the handler reads
  \<^verbatim>\<open>options.images\<close> of the call, and by truthiness.
\<close>

theorem boolVal_NaN_and_images_attribute:
  "boolVal (JNum NaN) = False \<and> NaN \<noteq> Finite 0 \<and>
   boolVal (opt_get (mergeOptions page_images 5
              (object_assign [] [DEFAULT_OPTIONS, [(''value'', JFile ''image/png'')]]) ''copy'')
            ''images'') = False \<and>
   map_sum id (\<lambda>s. click page_images s 5)
     (copyClipboard page_images (JElement 5) [(''value'', JFile ''image/png'')] initial_page)
     = Inr [([ClipboardWriteItem (JFile ''image/png'')], Returned)]"
  by code_simp

text \<open>
  For the prefix \<^verbatim>\<open>copy\<close>, which is the one prefix the library passes, \<^verbatim>\<open>mergeOptions\<close>
  returns an object with exactly the keys of the options object, in their order; the
  value of each key is the element's data attribute named by the camel-cased prefix and
  key when the element has it, and the value the options object gives the key otherwise.
\<close>

lemma mergeOptions_copy_keys_values:
  "map fst (mergeOptions d target opts ''copy'') = map fst opts \<and>
   (\<forall>k \<in> fst ` set opts.
      opt_get (mergeOptions d target opts ''copy'') k =
        (case dataset d target (snakeToCamel d (''copy-'' @ k)) of
           Some a \<Rightarrow> JStr a
         | None \<Rightarrow> opt_get opts k)) \<and>
   snakeToCamel d ''copy-target'' = ''copyTarget''"
  using snakeToCamel_copy_target [of d]
  by (simp add: map_fst_mergeOptions opt_get_mergeOptions_copy del: append.simps)

text \<open>
  C3 (the code at the failing input). The element has no \<^verbatim>\<open>data-to-string\<close> attribute.
  Under the empty prefix the key \<^verbatim>\<open>toString\<close> names \<^verbatim>\<open>toString\<close>, and under the prefix
  \<^verbatim>\<open>to\<close> the key \<^verbatim>\<open>string\<close> does: \<^verbatim>\<open>in\<close> finds the name, which every dataset inherits, and
  the result holds the inherited function in place of the option's value.
\<close>

theorem mergeOptions_inherited_name:
  "dataset page_multiple 1 ''toString'' = None \<and>
   mergeOptions page_multiple 1 [(''toString'', JStr ''x'')] [] = [(''toString'', JFunction 101)] \<and>
   mergeOptions page_multiple 1 [(''string'', JStr ''x'')] ''to'' = [(''string'', JFunction 101)]"
  by code_simp

section \<open>handlePaste on an items list with nothing to take\<close>

lemma scan_items_passed_over:
  "list_all (\<lambda>item. \<not> is_image_file item \<and> \<not> is_plain_text item) its \<Longrightarrow>
     scan_items opts its = (JUndefined, [])"
  by (induction its) simp_all

lemma scan_items_taken:
  "\<not> list_all (\<lambda>item. \<not> is_image_file item \<and> \<not> is_plain_text item) its \<Longrightarrow>
     \<exists>b. fst (scan_items opts its) = JBool b"
  by (induction its) (auto simp: Let_def)

text \<open>
  \<^verbatim>\<open>handlePaste\<close> returns \<^verbatim>\<open>undefined\<close> exactly when the clipboard data has an items list
  in which no item is an image file or plain text; in every other case it returns a
  Boolean.
\<close>

lemma handlePaste_undefined_iff:
  "fst (handlePaste w event options0) = JUndefined \<longleftrightarrow>
     (\<exists>cd its. (case clipboardData event of Some c \<Rightarrow> Some c | None \<Rightarrow> w) = Some cd \<and>
        items cd = Some its \<and>
        list_all (\<lambda>item. \<not> is_image_file item \<and> \<not> is_plain_text item) its)"
proof (cases "case clipboardData event of Some c \<Rightarrow> Some c | None \<Rightarrow> w")
  case None
  then show ?thesis
    by (simp add: handlePaste_def Let_def)
next
  case cd: (Some cd)
  show ?thesis
  proof (cases "items cd")
    case None
    then show ?thesis
      using cd by (simp add: handlePaste_def Let_def)
  next
    case (Some its)
    let ?opts = "object_assign [] [PASTE_DEFAULT_OPTIONS, options0]"
    have run: "handlePaste w event options0 = scan_items ?opts its"
      using cd Some by (simp add: handlePaste_def Let_def)
    show ?thesis
    proof (cases "list_all (\<lambda>item. \<not> is_image_file item \<and> \<not> is_plain_text item) its")
      case True
      then show ?thesis
        using run cd Some scan_items_passed_over [OF True, of ?opts] by simp
    next
      case False
      from scan_items_taken [OF False, of ?opts] obtain b where "fst (scan_items ?opts its) = JBool b"
        by blast
      then show ?thesis
        using run cd Some False by simp
    qed
  qed
qed

lemma handlePaste_boolean_or_undefined:
  "fst (handlePaste w event options0) = JUndefined \<or>
   (\<exists>b. fst (handlePaste w event options0) = JBool b)"
proof (cases "case clipboardData event of Some c \<Rightarrow> Some c | None \<Rightarrow> w")
  case None
  then show ?thesis
    by (auto simp: handlePaste_def Let_def)
next
  case cd: (Some cd)
  show ?thesis
  proof (cases "items cd")
    case None
    then show ?thesis
      using cd by (auto simp: handlePaste_def Let_def)
  next
    case (Some its)
    let ?opts = "object_assign [] [PASTE_DEFAULT_OPTIONS, options0]"
    have run: "handlePaste w event options0 = scan_items ?opts its"
      using cd Some by (simp add: handlePaste_def Let_def)
    show ?thesis
      using run scan_items_passed_over [of its ?opts] scan_items_taken [of its ?opts]
      by (cases "list_all (\<lambda>item. \<not> is_image_file item \<and> \<not> is_plain_text item) its") auto
  qed
qed

text \<open>
  C1 (the code at the failing input). The clipboard holds one item, a string of type
  \<^verbatim>\<open>text/html\<close>, as after copying rich text that has no plain twin. The loop passes it
  over and ends; \<^verbatim>\<open>handlePaste\<close> returns \<^verbatim>\<open>undefined\<close>, which is not a Boolean, and calls
  no callback, \<^verbatim>\<open>onError\<close> included.
\<close>

theorem handlePaste_html_only:
  "handlePaste None
     \<lparr>clipboardData = Some \<lparr>items = Some [\<lparr>kind = ''string'', mime = ''text/html'',
          getAsFile = JNull, getAsString = ''<b>copied</b>''\<rparr>], getDataText = ''copied''\<rparr>\<rparr> []
   = (JUndefined, [])"
  by (simp add: handlePaste_def is_image_file_def is_plain_text_def)

section \<open>The attempts of copyImageToClipboard\<close>

lemma attempts_anonymous:
  "attempts (fst (anonymous_image env u)) = [NewAnonymousImage u]"
  by (simp add: anonymous_image_def attempts_def)

lemma attempts_append: "attempts (xs @ ys) = attempts xs @ attempts ys"
  by (simp add: attempts_def)

lemma attempts_tail:
  "attempts (case blob2 of None \<Rightarrow> [ErrorFetch]
       | Some b \<Rightarrow> ClipboardWrite b # (if clipboardTakes env b then [] else [ErrorCopy])) = []"
  by (simp add: attempts_def split: option.splits)

lemma attempts_copyImage:
  "attempts (copyImageToClipboard env v) =
     attempts (fst (getImage env v False)) @
     (case snd (getImage env v False) of
        None \<Rightarrow> attempts (fst (getImage env v True))
      | Some b \<Rightarrow> [])"
proof -
  obtain t1 b1 where g1: "getImage env v False = (t1, b1)" by (cases "getImage env v False")
  obtain t2 b2 where g2: "getImage env v True = (t2, b2)" by (cases "getImage env v True")
  show ?thesis
    by (cases b1)
      (simp_all add: copyImageToClipboard_def g1 g2 attempts_append attempts_tail
         del: append_assoc, simp_all add: attempts_def split: option.splits)
qed

lemma attempts_getImage_le: "length (attempts (fst (getImage env v c))) \<le> 1"
  by (cases v) (simp_all add: attempts_anonymous, simp_all add: attempts_def)

text \<open>
  C2 (as amended). Given an image element, \<^verbatim>\<open>copyImageToClipboard\<close> first captures the
  element itself on a canvas; only if that yields no blob does it make one more attempt,
  with a fresh image whose \<^verbatim>\<open>crossOrigin\<close> is \<^verbatim>\<open>anonymous\<close> and whose source is the
  element's. Given a string, it takes the string as a URL: the first attempt already is a
  fresh anonymous image of that URL, and so is the one retry. Given anything else (an
  element that is no image, or a value that is neither a string nor an element), it
  attempts nothing. Whatever the input, it makes at most two attempts.
\<close>

theorem copyImageToClipboard_attempts:
  "(isHTMLImageElement env e \<longrightarrow>
      attempts (copyImageToClipboard env (JElement e)) =
        (if canvasBlob env e = None
         then [CanvasCapture e, NewAnonymousImage (src env e)]
         else [CanvasCapture e])) \<and>
   attempts (copyImageToClipboard env (JStr u)) =
        (if snd (anonymous_image env u) = None
         then [NewAnonymousImage u, NewAnonymousImage u]
         else [NewAnonymousImage u]) \<and>
   ((case v of JStr a \<Rightarrow> False | JElement a \<Rightarrow> \<not> isHTMLImageElement env a | _ \<Rightarrow> True) \<longrightarrow>
      attempts (copyImageToClipboard env v) = []) \<and>
   length (attempts (copyImageToClipboard env v)) \<le> 2"
proof -
  have img: "attempts (copyImageToClipboard env (JElement e)) =
        (if canvasBlob env e = None
         then [CanvasCapture e, NewAnonymousImage (src env e)]
         else [CanvasCapture e])" if "isHTMLImageElement env e"
    using that by (auto simp: attempts_copyImage attempts_anonymous) (simp_all add: attempts_def)
  have url: "attempts (copyImageToClipboard env (JStr u)) =
        (if snd (anonymous_image env u) = None
         then [NewAnonymousImage u, NewAnonymousImage u]
         else [NewAnonymousImage u])"
    by (auto simp: attempts_copyImage attempts_anonymous)
  have other: "attempts (copyImageToClipboard env v) = []"
    if "case v of JStr a \<Rightarrow> False | JElement a \<Rightarrow> \<not> isHTMLImageElement env a | _ \<Rightarrow> True"
    using that by (cases v) (simp_all add: attempts_copyImage, simp_all add: attempts_def)
  have le: "length (attempts (copyImageToClipboard env v)) \<le> 2"
    using attempts_getImage_le [of env v False] attempts_getImage_le [of env v True]
    by (simp add: attempts_copyImage split: option.splits)
  show ?thesis
    using img url other le by blast
qed

theorem copyImageToClipboard_attempts_witness:
  "attempts (copyImageToClipboard studio (JElement 7)) =
     [CanvasCapture 7, NewAnonymousImage ''https://example.org/cat.png''] \<and>
   attempts (copyImageToClipboard studio (JElement 8)) = []"
proof -
  have i: "isHTMLImageElement studio 7" by (simp add: studio_def)
  have n: "case JElement 8 of JStr a \<Rightarrow> False | JElement a \<Rightarrow> \<not> isHTMLImageElement studio a
           | _ \<Rightarrow> True"
    by (simp add: studio_def)
  have c: "canvasBlob studio 7 = None" by (simp add: studio_def)
  have s: "src studio 7 = ''https://example.org/cat.png''" by (simp add: studio_def)
  show ?thesis
    using copyImageToClipboard_attempts [of studio 7 _ "JElement 8"] i n c s
    by simp
qed

text \<open>
  Given a URL, the run never captures a provided image: its first and only attempt is a
  fresh anonymous image.
\<close>

theorem copyImageToClipboard_url_counterexample:
  "copyImageToClipboard studio (JStr ''https://example.org/dog.png'') =
     [NewAnonymousImage ''https://example.org/dog.png'',
      LoadedCapture ''https://example.org/dog.png'',
      ClipboardWrite 1] \<and>
   attempts (copyImageToClipboard studio (JStr ''https://example.org/dog.png'')) =
     [NewAnonymousImage ''https://example.org/dog.png'']"
  by (simp add: copyImageToClipboard_def anonymous_image_def studio_def attempts_def)

section \<open>The loop of copyClipboard, step by step\<close>

lemma WARNING_fields [simp]:
  "listeners (WARNING sc w s) = listeners s"
  "copyClipboardProp (WARNING sc w s) = copyClipboardProp s"
  "next_function (WARNING sc w s) = next_function s"
  "next_scope (WARNING sc w s) = next_scope s"
  "scopeWARNING (WARNING sc w s) = scopeWARNING s"
  "scopeDEBUG (WARNING sc w s) = scopeDEBUG s"
  "console (WARNING sc w s) = console s @ (if scopeWARNING s sc then [w] else [])"
  by (simp_all add: WARNING_def)

lemma assign_fields [simp]:
  "listeners (assign_WARNING_DEBUG sc eo s) = listeners s"
  "copyClipboardProp (assign_WARNING_DEBUG sc eo s) = copyClipboardProp s"
  "next_function (assign_WARNING_DEBUG sc eo s) = next_function s"
  "next_scope (assign_WARNING_DEBUG sc eo s) = next_scope s"
  "console (assign_WARNING_DEBUG sc eo s) = console s"
  "scopeWARNING (assign_WARNING_DEBUG sc eo s) =
     (scopeWARNING s)(sc := \<not> boolVal (opt_get eo ''suppressWarnings''))"
  "scopeDEBUG (assign_WARNING_DEBUG sc eo s) =
     (scopeDEBUG s)(sc := boolVal (opt_get eo ''debug''))"
  by (simp_all add: assign_WARNING_DEBUG_def)

lemma enter_call_fields [simp]:
  "listeners (enter_call opts s) = listeners s"
  "copyClipboardProp (enter_call opts s) = copyClipboardProp s"
  "next_function (enter_call opts s) = next_function s"
  "next_scope (enter_call opts s) = Suc (next_scope s)"
  "console (enter_call opts s) = console s"
  "scopeWARNING (enter_call opts s) =
     (scopeWARNING s)(next_scope s := \<not> boolVal (opt_get opts ''suppressWarnings''))"
  by (simp_all add: enter_call_def)

lemma forget_fields [simp]:
  "listeners (forget_previous c s) =
     (case copyClipboardProp s c of
        Some r \<Rightarrow> (listeners s)(c := removeEventListener (cr_copyHandler r) (listeners s c))
      | None \<Rightarrow> listeners s)"
  "copyClipboardProp (forget_previous c s) = (copyClipboardProp s)(c := None)"
  "next_function (forget_previous c s) = next_function s"
  "next_scope (forget_previous c s) = next_scope s"
  "console (forget_previous c s) = console s"
  "scopeWARNING (forget_previous c s) = scopeWARNING s"
  "scopeDEBUG (forget_previous c s) = scopeDEBUG s"
  by (auto simp: forget_previous_def split: option.splits)

lemma install_fields [simp]:
  "listeners (install sc opts eo c s) =
     (listeners s)(c := listeners s c @
        [\<lparr>h_id = next_function s, h_scope = sc, h_copyable = c,
          h_elementOptions = eo, h_options = opts\<rparr>])"
  "copyClipboardProp (install sc opts eo c s) =
     (copyClipboardProp s)(c \<mapsto> \<lparr>cr_options = eo,
        cr_copyHandler = \<lparr>h_id = next_function s, h_scope = sc, h_copyable = c,
          h_elementOptions = eo, h_options = opts\<rparr>, cr_version = VERSION\<rparr>)"
  "next_function (install sc opts eo c s) = Suc (next_function s)"
  "next_scope (install sc opts eo c s) = next_scope s"
  "console (install sc opts eo c s) = console s"
  "scopeWARNING (install sc opts eo c s) = scopeWARNING s"
  "scopeDEBUG (install sc opts eo c s) = scopeDEBUG s"
  by (simp_all add: install_def addEventListener_def Let_def)

lemma well_bound_eq:
  "listeners s' e = listeners s e \<Longrightarrow> copyClipboardProp s' e = copyClipboardProp s e \<Longrightarrow>
     well_bound s' e = well_bound s e"
  by (simp add: well_bound_def split: option.splits)

text \<open>One pass of the loop, field by field.\<close>

lemma bind_other:
  "e \<noteq> c \<Longrightarrow> listeners (bind_copyable d sc opts c s) e = listeners s e \<and>
     copyClipboardProp (bind_copyable d sc opts c s) e = copyClipboardProp s e"
  by (simp add: bind_copyable_def Let_def split: option.splits)

lemma bind_skipped:
  "nothing_to_copy (mergeOptions d c opts ''copy'') \<Longrightarrow>
     listeners (bind_copyable d sc opts c s) = listeners s \<and>
     copyClipboardProp (bind_copyable d sc opts c s) = copyClipboardProp s \<and>
     next_function (bind_copyable d sc opts c s) = next_function s"
  by (simp add: bind_copyable_def Let_def)


lemma bind_scope:
  "scopeWARNING (bind_copyable d sc opts c s) =
     (scopeWARNING s)(sc := \<not> boolVal (opt_get (mergeOptions d c opts ''copy'') ''suppressWarnings''))"
  "scopeDEBUG (bind_copyable d sc opts c s) =
     (scopeDEBUG s)(sc := boolVal (opt_get (mergeOptions d c opts ''copy'') ''debug''))"
  "next_scope (bind_copyable d sc opts c s) = next_scope s"
  by (simp_all add: bind_copyable_def Let_def)

lemma bind_next_function:
  "next_function s \<le> next_function (bind_copyable d sc opts c s)"
  by (simp add: bind_copyable_def Let_def)

lemma forget_clears:
  "well_bound s c \<Longrightarrow> listeners (forget_previous c s) c = []"
  by (auto simp: well_bound_def removeEventListener_def split: option.splits)

lemma bind_installed:
  assumes "well_bound s c" and "\<not> nothing_to_copy (mergeOptions d c opts ''copy'')"
  shows "listeners (bind_copyable d sc opts c s) c = [handler_for d (next_function s) sc opts c] \<and>
         copyClipboardProp (bind_copyable d sc opts c s) c =
           Some (record_for d (next_function s) sc opts c)"
proof -
  have "well_bound (assign_WARNING_DEBUG sc (mergeOptions d c opts ''copy'') s) c"
    using assms(1) well_bound_eq [of "assign_WARNING_DEBUG sc (mergeOptions d c opts ''copy'') s" c s]
    by simp
  then have "listeners (forget_previous c (assign_WARNING_DEBUG sc (mergeOptions d c opts ''copy'') s)) c = []"
    by (rule forget_clears)
  then show ?thesis
    using assms(2)
    by (simp add: bind_copyable_def Let_def handler_for_def record_for_def del: forget_fields(1))
qed

lemma bind_page_ok:
  assumes "page_ok s"
  shows "page_ok (bind_copyable d sc opts c s)"
proof (cases "nothing_to_copy (mergeOptions d c opts ''copy'')")
  case True
  note sk = bind_skipped [OF True, of sc s]
  have "well_bound (bind_copyable d sc opts c s) e = well_bound s e" for e
    using sk by (intro well_bound_eq) simp_all
  then show ?thesis
    using assms sk by (simp add: page_ok_def)
next
  case False
  have wb: "well_bound s c" using assms by (simp add: page_ok_def)
  note inst = bind_installed [OF wb False, of sc]
  have nf: "next_function (bind_copyable d sc opts c s) = Suc (next_function s)"
    using False by (simp add: bind_copyable_def Let_def)
  show ?thesis
    unfolding page_ok_def
  proof (intro allI conjI)
    fix e
    show "well_bound (bind_copyable d sc opts c s) e"
    proof (cases "e = c")
      case True
      then show ?thesis
        using inst by (simp add: well_bound_def handler_for_def record_for_def)
    next
      case False
      have "well_bound (bind_copyable d sc opts c s) e = well_bound s e"
        using bind_other [OF False, of d sc opts s] by (intro well_bound_eq) simp_all
      then show ?thesis
        using assms by (simp add: page_ok_def)
    qed
    show "\<forall>h\<in>set (listeners (bind_copyable d sc opts c s) e). h_id h < next_function (bind_copyable d sc opts c s)"
    proof (cases "e = c")
      case True
      then show ?thesis
        using inst nf by (simp add: handler_for_def)
    next
      case False
      then show ?thesis
        using assms bind_other [OF False, of d sc opts s] nf by (auto simp: page_ok_def less_Suc_eq)
    qed
  qed
qed

lemma bound_byI:
  "m \<le> n \<Longrightarrow> listeners s e = [handler_for d n sc opts e] \<Longrightarrow>
   copyClipboardProp s e = Some (record_for d n sc opts e) \<Longrightarrow> bound_by d sc opts m s e"
  by (simp add: bound_by_def handler_for_def)

lemma bound_byD:
  "bound_by d sc opts m s e \<Longrightarrow>
     \<exists>n\<ge>m. listeners s e = [handler_for d n sc opts e] \<and>
            copyClipboardProp s e = Some (record_for d n sc opts e)"
  by (auto simp: bound_by_def split: list.splits)

lemma bound_by_eq:
  "listeners s' e = listeners s e \<Longrightarrow> copyClipboardProp s' e = copyClipboardProp s e \<Longrightarrow>
     bound_by d sc opts m s' e = bound_by d sc opts m s e"
  by (simp add: bound_by_def split: list.splits)

lemma bind_bound:
  assumes "page_ok s" and "\<not> nothing_to_copy (mergeOptions d e opts ''copy'')"
      and "m \<le> next_function s" and "c = e \<or> bound_by d sc opts m s e"
  shows "bound_by d sc opts m (bind_copyable d sc opts c s) e"
proof (cases "c = e")
  case True
  have wb: "well_bound s e" using assms(1) by (simp add: page_ok_def)
  show ?thesis
    using bind_installed [OF wb assms(2), of sc] assms(3) True by (auto intro: bound_byI)
next
  case False
  then have "e \<noteq> c" by simp
  from bind_other [OF this, of d sc opts s]
  have "bound_by d sc opts m (bind_copyable d sc opts c s) e = bound_by d sc opts m s e"
    by (intro bound_by_eq) simp_all
  then show ?thesis
    using assms(4) False by simp
qed

lemma fold_page_ok: "page_ok s \<Longrightarrow> page_ok (fold (bind_copyable d sc opts) es s)"
  by (induction es arbitrary: s) (simp_all add: bind_page_ok)

lemma fold_next_function:
  "next_function s \<le> next_function (fold (bind_copyable d sc opts) es s)"
proof (induction es arbitrary: s)
  case Nil
  then show ?case by simp
next
  case (Cons c cs)
  show ?case
    using bind_next_function [of s d sc opts c] Cons [of "bind_copyable d sc opts c s"]
    by simp
qed

lemma fold_untouched:
  "e \<notin> set es \<Longrightarrow>
     listeners (fold (bind_copyable d sc opts) es s) e = listeners s e \<and>
     copyClipboardProp (fold (bind_copyable d sc opts) es s) e = copyClipboardProp s e"
  by (induction es arbitrary: s) (simp_all add: bind_other)


lemma fold_bound:
  assumes "\<not> nothing_to_copy (mergeOptions d e opts ''copy'')"
  shows "page_ok s \<Longrightarrow> m \<le> next_function s \<Longrightarrow> e \<in> set es \<or> bound_by d sc opts m s e \<Longrightarrow>
     bound_by d sc opts m (fold (bind_copyable d sc opts) es s) e"
proof (induction es arbitrary: s)
  case Nil
  then show ?case by simp
next
  case (Cons c cs)
  let ?s = "bind_copyable d sc opts c s"
  have ok: "page_ok ?s" using Cons.prems(1) by (rule bind_page_ok)
  have m: "m \<le> next_function ?s"
    using Cons.prems(2) bind_next_function [of s d sc opts c] by simp
  have "e \<in> set cs \<or> bound_by d sc opts m ?s e"
  proof (cases "e \<in> set cs")
    case True
    then show ?thesis by simp
  next
    case False
    then have "c = e \<or> bound_by d sc opts m s e" using Cons.prems(3) by auto
    then show ?thesis
      using bind_bound [OF Cons.prems(1) assms Cons.prems(2)] by simp
  qed
  then show ?case
    using Cons.IH [OF ok m] by simp
qed


lemma fold_scope:
  "es \<noteq> [] \<Longrightarrow>
     scopeWARNING (fold (bind_copyable d sc opts) es s) sc =
       (\<not> boolVal (opt_get (mergeOptions d (last es) opts ''copy'') ''suppressWarnings'')) \<and>
     scopeDEBUG (fold (bind_copyable d sc opts) es s) sc =
       boolVal (opt_get (mergeOptions d (last es) opts ''copy'') ''debug'')"
proof (induction es arbitrary: s)
  case Nil
  then show ?case by simp
next
  case (Cons c cs)
  show ?case
  proof (cases "cs = []")
    case True
    then show ?thesis by (simp add: bind_scope)
  next
    case False
    then show ?thesis using Cons.IH [OF False] by simp
  qed
qed

lemma enter_call_page_ok: "page_ok (enter_call opts s) = page_ok s"
proof -
  have "well_bound (enter_call opts s) e = well_bound s e" for e
    by (intro well_bound_eq) simp_all
  then show ?thesis by (simp add: page_ok_def)
qed

lemma WARNING_page_ok: "page_ok (WARNING sc w s) = page_ok s"
proof -
  have "well_bound (WARNING sc w s) e = well_bound s e" for e
    by (intro well_bound_eq) simp_all
  then show ?thesis by (simp add: page_ok_def)
qed

lemma copyClipboard_found:
  "find_elements d element = Some es \<Longrightarrow>
     copyClipboard d element options0 s =
       Inr (if es = []
            then WARNING (next_scope s) (NoElementsFound element)
                   (enter_call (object_assign [] [DEFAULT_OPTIONS, options0]) s)
            else fold (bind_copyable d (next_scope s) (object_assign [] [DEFAULT_OPTIONS, options0]))
                   es (enter_call (object_assign [] [DEFAULT_OPTIONS, options0]) s))"
  by (simp add: copyClipboard_def Let_def)

lemma copyClipboard_threw:
  "find_elements d element = None \<Longrightarrow> copyClipboard d element options0 s = Inl SyntaxError"
  by (simp add: copyClipboard_def Let_def)

lemma copyClipboard_page_ok:
  assumes "page_ok s" and "copyClipboard d element options0 s = Inr s'"
  shows "page_ok s'"
proof (cases "find_elements d element")
  case None
  then show ?thesis using assms(2) by (simp add: copyClipboard_threw)
next
  case (Some es)
  show ?thesis
    using assms copyClipboard_found [OF Some, of options0 s]
    by (auto simp: WARNING_page_ok enter_call_page_ok fold_page_ok split: if_splits)
qed

lemma page_ok_initial: "page_ok initial_page"
  by (simp add: page_ok_def well_bound_def initial_page_def)

lemma page_ok_length: "page_ok s \<Longrightarrow> length (listeners s e) \<le> 1"
  by (auto simp: page_ok_def well_bound_def split: option.splits dest!: spec [of _ e])

lemma page_ok_recorded:
  "page_ok s \<Longrightarrow> copyClipboardProp s e = Some r \<Longrightarrow>
     listeners s e = [cr_copyHandler r] \<and> cr_options r = h_elementOptions (cr_copyHandler r) \<and>
     h_id (cr_copyHandler r) < next_function s"
  by (auto simp: page_ok_def well_bound_def split: option.splits dest!: spec [of _ e])

lemma object_assign_nil: "object_assign [] [DEFAULT_OPTIONS, []] = DEFAULT_OPTIONS"
  by (simp add: object_assign_def DEFAULT_OPTIONS_def)

text \<open>What a call that finds elements leaves on one of them that has something to copy.\<close>

lemma copyClipboard_bound:
  assumes "page_ok s" and "find_elements d element = Some es" and "e \<in> set es"
      and "\<not> nothing_to_copy (mergeOptions d e (object_assign [] [DEFAULT_OPTIONS, options0]) ''copy'')"
  shows "\<exists>s' n. copyClipboard d element options0 s = Inr s' \<and> next_function s \<le> n \<and>
     listeners s' e =
       [handler_for d n (next_scope s) (object_assign [] [DEFAULT_OPTIONS, options0]) e] \<and>
     copyClipboardProp s' e =
       Some (record_for d n (next_scope s) (object_assign [] [DEFAULT_OPTIONS, options0]) e) \<and>
     scopeWARNING s' (next_scope s) =
       (\<not> boolVal (opt_get (mergeOptions d (last es) (object_assign [] [DEFAULT_OPTIONS, options0]) ''copy'')
                      ''suppressWarnings'')) \<and>
     scopeDEBUG s' (next_scope s) =
       boolVal (opt_get (mergeOptions d (last es) (object_assign [] [DEFAULT_OPTIONS, options0]) ''copy'')
                  ''debug'')"
proof -
  let ?opts = "object_assign [] [DEFAULT_OPTIONS, options0]"
  let ?s0 = "enter_call ?opts s"
  let ?s' = "fold (bind_copyable d (next_scope s) ?opts) es ?s0"
  have ne: "es \<noteq> []" using assms(3) by auto
  have run: "copyClipboard d element options0 s = Inr ?s'"
    using copyClipboard_found [OF assms(2), of options0 s] ne by simp
  have ok: "page_ok ?s0" using assms(1) by (simp add: enter_call_page_ok)
  have "bound_by d (next_scope s) ?opts (next_function s) ?s' e"
    using fold_bound [OF assms(4) ok, of "next_function s" es "next_scope s"] assms(3) by simp
  from bound_byD [OF this] obtain n where n: "next_function s \<le> n"
      "listeners ?s' e = [handler_for d n (next_scope s) ?opts e]"
      "copyClipboardProp ?s' e = Some (record_for d n (next_scope s) ?opts e)"
    by blast
  show ?thesis
    using run n fold_scope [OF ne, of d "next_scope s" ?opts ?s0] by blast
qed

section \<open>What the handler does\<close>

text \<open>The loop over the targets, when every target yields a text: it stops at the first
  image if images are copied, and collects all the texts otherwise.\<close>

lemma scan_targets_find:
  "map (elementText d) ts = map Some texts \<Longrightarrow>
     scan_targets d images ts acc =
       (case (if images then find (is_img d) ts else None) of
          Some i \<Rightarrow> FoundImage i
        | None \<Rightarrow> Texts (acc @ texts))"
proof (induction ts arbitrary: acc texts)
  case Nil
  then show ?case by simp
next
  case (Cons t ts)
  from Cons.prems obtain x xs where x: "texts = x # xs" "elementText d t = Some x"
      "map (elementText d) ts = map Some xs"
    by (cases texts) auto
  show ?case
    using Cons.IH [OF x(3), of "acc @ [x]"] x(1,2) by (simp split: option.splits)
qed

lemma collect_targets_both:
  "(if truthy (opt_get eo ''target'') then querySelectorAll d (opt_get eo ''target'') else Some [])
     = Some ts \<Longrightarrow>
   (if truthy (opt_get eo ''targetChildren'')
    then querySelectorAllIn d c (opt_get eo ''targetChildren'') else Some []) = Some cs \<Longrightarrow>
   collect_targets d c eo = Some (ts @ cs)"
  by (simp add: collect_targets_def)




section \<open>What copyClipboard registers\<close>




section \<open>One handler per element\<close>

text \<open>
  C9. The page before any call is well formed, and \<^verbatim>\<open>copyClipboard\<close> keeps a page well
  formed: every element carries at most one copy handler, and an element with a
  \<^verbatim>\<open>_copyClipboard\<close> property has exactly the handler recorded there as its listener,
  recorded together with that handler's merged options. Where the call binds an element
  that had a record, the old handler is no longer among the listeners, the old record is
  gone, and the new record holds the options merged in this call.
\<close>

theorem copyClipboard_one_handler:
  "page_ok initial_page \<and>
   (page_ok s \<and> copyClipboard d element options0 s = Inr s' \<longrightarrow>
      page_ok s' \<and>
      (\<forall>e. length (listeners s' e) \<le> 1) \<and>
      (\<forall>e r. copyClipboardProp s' e = Some r \<longrightarrow>
         listeners s' e = [cr_copyHandler r] \<and>
         cr_options r = h_elementOptions (cr_copyHandler r)) \<and>
      (\<forall>es e r. find_elements d element = Some es \<and> e \<in> set es \<and>
         \<not> nothing_to_copy (mergeOptions d e (object_assign [] [DEFAULT_OPTIONS, options0]) ''copy'') \<and>
         copyClipboardProp s e = Some r \<longrightarrow>
         cr_copyHandler r \<notin> set (listeners s' e) \<and>
         copyClipboardProp s' e \<noteq> Some r \<and>
         (\<exists>r'. copyClipboardProp s' e = Some r' \<and>
               cr_options r' = mergeOptions d e (object_assign [] [DEFAULT_OPTIONS, options0]) ''copy'')))"
proof (intro conjI impI)
  show "page_ok initial_page" by (rule page_ok_initial)
next
  assume a: "page_ok s \<and> copyClipboard d element options0 s = Inr s'"
  then have ok: "page_ok s'" using copyClipboard_page_ok by blast
  then show "page_ok s'" .
  show "\<forall>e. length (listeners s' e) \<le> 1"
    using ok page_ok_length by blast
  show "\<forall>e r. copyClipboardProp s' e = Some r \<longrightarrow>
         listeners s' e = [cr_copyHandler r] \<and>
         cr_options r = h_elementOptions (cr_copyHandler r)"
    using ok page_ok_recorded by blast
  show "\<forall>es e r. find_elements d element = Some es \<and> e \<in> set es \<and>
         \<not> nothing_to_copy (mergeOptions d e (object_assign [] [DEFAULT_OPTIONS, options0]) ''copy'') \<and>
         copyClipboardProp s e = Some r \<longrightarrow>
         cr_copyHandler r \<notin> set (listeners s' e) \<and>
         copyClipboardProp s' e \<noteq> Some r \<and>
         (\<exists>r'. copyClipboardProp s' e = Some r' \<and>
               cr_options r' = mergeOptions d e (object_assign [] [DEFAULT_OPTIONS, options0]) ''copy'')"
  proof (intro allI impI)
    fix es e r
    let ?opts = "object_assign [] [DEFAULT_OPTIONS, options0]"
    assume h: "find_elements d element = Some es \<and> e \<in> set es \<and>
         \<not> nothing_to_copy (mergeOptions d e ?opts ''copy'') \<and> copyClipboardProp s e = Some r"
    from a h copyClipboard_bound [of s d element es e options0]
    obtain n where n: "next_function s \<le> n"
      "listeners s' e = [handler_for d n (next_scope s) ?opts e]"
      "copyClipboardProp s' e = Some (record_for d n (next_scope s) ?opts e)"
      by auto
    have old: "h_id (cr_copyHandler r) < next_function s"
      using a h page_ok_recorded by blast
    have ne: "cr_copyHandler r \<noteq> handler_for d n (next_scope s) ?opts e"
    proof
      assume "cr_copyHandler r = handler_for d n (next_scope s) ?opts e"
      then have "h_id (cr_copyHandler r) = n" by (simp add: handler_for_def)
      then show False using old n(1) by simp
    qed
    have rec: "r \<noteq> record_for d n (next_scope s) ?opts e"
    proof
      assume "r = record_for d n (next_scope s) ?opts e"
      then have "cr_copyHandler r = handler_for d n (next_scope s) ?opts e"
        by (simp add: record_for_def)
      then show False using ne by simp
    qed
    show "cr_copyHandler r \<notin> set (listeners s' e) \<and>
         copyClipboardProp s' e \<noteq> Some r \<and>
         (\<exists>r'. copyClipboardProp s' e = Some r' \<and> cr_options r' = mergeOptions d e ?opts ''copy'')"
      using n ne rec by (simp add: record_for_def)
  qed
qed

text \<open>Button 1 is bound twice in a row: it ends with one listener, the second handler.\<close>

theorem copyClipboard_one_handler_witness:
  "\<exists>s1 s2. copyClipboard demo_page (JElement 1) [] initial_page = Inr s1 \<and>
     copyClipboard demo_page (JElement 1) [] s1 = Inr s2 \<and>
     page_ok s2 \<and> length (listeners s2 1) \<le> 1 \<and>
     map h_id (listeners s1 1) = [0] \<and> map h_id (listeners s2 1) = [1]"
proof -
  obtain s1 where s1: "copyClipboard demo_page (JElement 1) [] initial_page = Inr s1"
    by (simp add: copyClipboard_def Let_def find_elements_def demo_page_def)
  obtain s2 where s2: "copyClipboard demo_page (JElement 1) [] s1 = Inr s2"
    by (simp add: copyClipboard_def Let_def find_elements_def demo_page_def)
  have ok1: "page_ok s1"
    using copyClipboard_one_handler [of initial_page demo_page "JElement 1" "[]" s1] s1 by blast
  have ok2: "page_ok s2 \<and> length (listeners s2 1) \<le> 1"
    using copyClipboard_one_handler [of s1 demo_page "JElement 1" "[]" s2] ok1 s2 by blast
  have "map_sum id (\<lambda>s. map h_id (listeners s 1))
          (copyClipboard demo_page (JElement 1) [] initial_page) = Inr [0]"
    by code_simp
  then have l1: "map h_id (listeners s1 1) = [0]"
    using s1 by simp
  have "map_sum id (\<lambda>s. map h_id (listeners s 1))
          (case copyClipboard demo_page (JElement 1) [] initial_page of
             Inl err \<Rightarrow> Inl err
           | Inr s \<Rightarrow> copyClipboard demo_page (JElement 1) [] s) = Inr [1]"
    by code_simp
  then have l2: "map h_id (listeners s2 1) = [1]"
    using s1 s2 by simp
  show ?thesis
    using s1 s2 ok2 l1 l2 by (intro exI [of _ s1] exI [of _ s2]) simp
qed

section \<open>A value that comes only from the data attribute\<close>

lemma opt_get_key: "opt_get opts k = JNull \<Longrightarrow> k \<in> fst ` set opts"
  by (auto simp: opt_get_def split: option.splits dest!: map_of_SomeD intro: rev_image_eqI)

lemma copy_value_null:
  "opt_get opts ''value'' = JNull \<Longrightarrow>
     copy_value d warn debug opts = (if warn then [ConsoleWarn UnsupportedValueType] else [])"
  by (simp add: copy_value_def)

text \<open>
  C7. Let the options of the call have \<^verbatim>\<open>value: null\<close> and let a matched element carry a
  non-empty \<^verbatim>\<open>data-copy-value\<close>. Then the merged options of the element have that string
  as their value, a handler is registered, and a click on the element runs it into the
  value branch, where it finds \<^verbatim>\<open>options.value\<close> to be \<^verbatim>\<open>null\<close>, reaches the warning about
  an unsupported value type (printed unless the warnings of the call are suppressed, which
  the last matched element decides) and returns: nothing is written to the clipboard.
\<close>

theorem attribute_value_copies_nothing:
  fixes d :: dom and options0 :: options
  defines "opts \<equiv> object_assign [] [DEFAULT_OPTIONS, options0]"
  assumes "page_ok s" and "find_elements d element = Some es" and "e \<in> set es"
      and "opt_get opts ''value'' = JNull"
      and "dataset d e ''copyValue'' = Some v" and "v \<noteq> []"
  shows "\<exists>s'. copyClipboard d element options0 s = Inr s' \<and>
           opt_get (mergeOptions d e opts ''copy'') ''value'' = JStr v \<and>
           click d s' e =
             [(if boolVal (opt_get (mergeOptions d (last es) opts ''copy'') ''suppressWarnings'')
               then [] else [ConsoleWarn UnsupportedValueType], Returned)]"
proof -
  have key: "''value'' \<in> fst ` set opts"
    using assms(5) by (rule opt_get_key)
  have merged: "opt_get (mergeOptions d e opts ''copy'') ''value'' = JStr v"
    using opt_get_mergeOptions_copy [OF key, of d e] assms(6) snakeToCamel_copy_value [of d]
    by simp
  then have some: "\<not> nothing_to_copy (mergeOptions d e opts ''copy'')"
    using assms(7) by (simp add: nothing_to_copy_def)
  from copyClipboard_bound [OF assms(2) assms(3) assms(4), of options0] some
  obtain s' n where s': "copyClipboard d element options0 s = Inr s'"
    and l: "listeners s' e = [handler_for d n (next_scope s) opts e]"
    and w: "scopeWARNING s' (next_scope s) =
       (\<not> boolVal (opt_get (mergeOptions d (last es) opts ''copy'') ''suppressWarnings''))"
    unfolding opts_def by blast
  have "copyHandler d s' (handler_for d n (next_scope s) opts e) =
          (if boolVal (opt_get (mergeOptions d (last es) opts ''copy'') ''suppressWarnings'')
           then [] else [ConsoleWarn UnsupportedValueType], Returned)"
    using merged assms(7) w copy_value_null [OF assms(5)]
    by (simp add: copyHandler_def handler_for_def)
  then show ?thesis
    using s' merged l by (simp add: click_def)
qed

text \<open>Button 3 has \<^verbatim>\<open>data-copy-value="hello"\<close> and is bound with no options: a click
  copies nothing and, warnings being suppressed by default, prints nothing.\<close>

theorem attribute_value_copies_nothing_witness:
  "\<exists>s'. copyClipboard demo_page (JElement 3) [] initial_page = Inr s' \<and>
         opt_get (mergeOptions demo_page 3 DEFAULT_OPTIONS ''copy'') ''value'' = JStr ''hello'' \<and>
         click demo_page s' 3 = [([], Returned)]"
proof -
  have f: "find_elements demo_page (JElement 3) = Some [3]"
    by (simp add: find_elements_def demo_page_def)
  have e: "(3::nat) \<in> set [3]" by simp
  have n: "opt_get (object_assign [] [DEFAULT_OPTIONS, []]) ''value'' = JNull"
    by (simp add: object_assign_nil) (simp add: DEFAULT_OPTIONS_def opt_get_def)
  have a: "dataset demo_page 3 ''copyValue'' = Some ''hello''"
    by (simp add: demo_page_def)
  have v: "''hello'' \<noteq> []" by simp
  have q: "boolVal (opt_get (mergeOptions demo_page (last [3]) DEFAULT_OPTIONS ''copy'') ''suppressWarnings'')"
    by code_simp
  show ?thesis
    using attribute_value_copies_nothing [OF page_ok_initial f e n a v] q
    unfolding object_assign_nil by simp
qed

section \<open>What a click copies from the targets\<close>

text \<open>
  C5 (as amended). A click runs the handler of a bound element whose merged options have
  no truthy value. Let both selectors be ones the browser can parse, and let every
  selected target yield a text. The handler collects the matches of \<^verbatim>\<open>target\<close> in the
  document, then the matches of \<^verbatim>\<open>targetChildren\<close> inside the element. If the list is
  empty it copies nothing, and warns only if the handler's \<^verbatim>\<open>WARNING\<close> prints. Otherwise
  the selected targets are all of them, or the first alone when \<^verbatim>\<open>boolVal(multiple)\<close> is
  false. If images are enabled and a selected target is an \<^verbatim>\<open>img\<close>, the first such image
  is handed to \<^verbatim>\<open>copyImageToClipboard\<close> and no text is written; otherwise the texts of all
  selected targets, joined with \<^verbatim>\<open>joinText\<close>, are written to the clipboard as text.
\<close>

theorem copyHandler_targets:
  fixes d :: dom and s :: page and h :: handler
  defines "eo \<equiv> h_elementOptions h"
  defines "multiple \<equiv> boolVal (opt_get (h_elementOptions h) ''multiple'')"
  assumes "\<not> truthy (opt_get eo ''value'')"
      and "(if truthy (opt_get eo ''target'')
            then querySelectorAll d (opt_get eo ''target'') else Some []) = Some ts"
      and "(if truthy (opt_get eo ''targetChildren'')
            then querySelectorAllIn d (h_copyable h) (opt_get eo ''targetChildren'') else Some [])
             = Some cs"
      and "selected = (if multiple then ts @ cs else take 1 (ts @ cs))"
      and "map (elementText d) selected = map Some texts"
      and "said = (if scopeDEBUG s (h_scope h)
                   then [ConsoleLog (if multiple then CopyingAllTargets (ts @ cs)
                                     else CopyingFirstTarget (hd (ts @ cs)))]
                   else [])"
  shows "copyHandler d s h =
     (if ts @ cs = []
      then (if scopeWARNING s (h_scope h) then [ConsoleWarn NoTargetElements] else [], Returned)
      else (case (if boolVal (opt_get eo ''images'') then find (is_img d) selected else None) of
              Some img \<Rightarrow> (said @ [CopyImage img], Returned)
            | None \<Rightarrow>
                (said @ copyTextToClipboard d (JStr (js_join d texts (opt_get eo ''joinText''))),
                 Returned)))"
proof (cases "ts @ cs = []")
  case True
  then show ?thesis
    using assms(3) collect_targets_both [OF assms(4) assms(5)]
    by (simp add: copyHandler_def copy_targets_def eo_def)
next
  case False
  let ?w = "scopeWARNING s (h_scope h)" and ?g = "scopeDEBUG s (h_scope h)"
  let ?images = "boolVal (opt_get eo ''images'')"
  have ct: "collect_targets d (h_copyable h) eo = Some (ts @ cs)"
    using collect_targets_both [OF assms(4) assms(5)] .
  have sel: "select_targets eo (ts @ cs) = selected"
    using assms(6) False by (cases "ts @ cs") (simp_all add: multiple_def eo_def select_targets_def)
  have sd: "debug_targets ?g eo (ts @ cs) = said"
    using assms(8) by (simp add: multiple_def eo_def debug_targets_def)
  have unfolded: "copy_targets d ?w ?g (h_copyable h) eo =
     (case scan_targets d ?images selected [] of
        FoundImage t \<Rightarrow> (said @ [CopyImage t], Returned)
      | ScanThrew \<Rightarrow> (said, Threw TypeError)
      | Texts r \<Rightarrow>
          (said @ (if length r > 0
                   then copyTextToClipboard d (JStr (js_join d r (opt_get eo ''joinText'')))
                   else []), Returned))"
    using False by (auto simp: copy_targets_def ct sel sd)
  have len: "length texts = length selected"
    using assms(7) by (metis length_map)
  have "selected \<noteq> []"
    using sel False by (auto simp: select_targets_def split: if_splits)
  then have pos: "0 < length texts"
    using len by simp
  note scan = scan_targets_find [OF assms(7), of ?images "[]"]
  have "copy_targets d ?w ?g (h_copyable h) eo =
     (case (if ?images then find (is_img d) selected else None) of
              Some img \<Rightarrow> (said @ [CopyImage img], Returned)
            | None \<Rightarrow>
                (said @ copyTextToClipboard d (JStr (js_join d texts (opt_get eo ''joinText''))),
                 Returned))"
  proof (cases "if ?images then find (is_img d) selected else None")
    case None
    then have "scan_targets d ?images selected [] = Texts texts"
      using scan by simp
    then show ?thesis
      using None pos unfolded by simp
  next
    case (Some i)
    then have "scan_targets d ?images selected [] = FoundImage i"
      using scan by simp
    then show ?thesis
      using Some unfolded by simp
  qed
  moreover have "copyHandler d s h = copy_targets d ?w ?g (h_copyable h) eo"
    using assms(3) by (simp add: copyHandler_def eo_def)
  ultimately show ?thesis
    using False by (simp only: if_False)
qed

text \<open>In the gallery, the button's handler stops at the picture and drops the caption it has
  collected; on the page with the paragraph, the handler writes the paragraph's text.\<close>

theorem copyHandler_targets_witness:
  "copyHandler gallery_page initial_page (handler_for gallery_page 0 0 DEFAULT_OPTIONS 1) =
     ([CopyImage 20], Returned) \<and>
   copyHandler demo_page initial_page (handler_for demo_page 0 0 DEFAULT_OPTIONS 1) =
     ([ClipboardWriteText (JStr ''Hello'')], Returned)"
proof -
  let ?g = "handler_for gallery_page 0 0 DEFAULT_OPTIONS 1"
  have g1: "\<not> truthy (opt_get (h_elementOptions ?g) ''value'')"
    by code_simp
  have g2: "(if truthy (opt_get (h_elementOptions ?g) ''target'')
             then querySelectorAll gallery_page (opt_get (h_elementOptions ?g) ''target'')
             else Some []) = Some [21, 20, 22]"
    by code_simp
  have g3: "(if truthy (opt_get (h_elementOptions ?g) ''targetChildren'')
             then querySelectorAllIn gallery_page (h_copyable ?g)
                    (opt_get (h_elementOptions ?g) ''targetChildren'')
             else Some []) = Some []"
    by code_simp
  have g4: "([21, 20, 22] :: elem list) =
     (if boolVal (opt_get (h_elementOptions ?g) ''multiple'')
      then [21, 20, 22] @ [] else take 1 ([21, 20, 22] @ []))"
    by code_simp
  have g5: "map (elementText gallery_page) [21, 20, 22] =
              map Some [JStr ''Sunset'', JStr ''A boat'', JStr ''Harbour'']"
    by code_simp
  have g6: "[] = (if scopeDEBUG initial_page (h_scope ?g)
                 then [ConsoleLog (if boolVal (opt_get (h_elementOptions ?g) ''multiple'')
                                   then CopyingAllTargets ([21, 20, 22] @ [])
                                   else CopyingFirstTarget (hd ([21, 20, 22] @ [])))]
                 else [])"
    by code_simp
  have g7: "boolVal (opt_get (h_elementOptions ?g) ''images'')"
    by code_simp
  have g8: "find (is_img gallery_page) [21, 20, 22] = Some 20"
    by code_simp
  have g: "copyHandler gallery_page initial_page ?g = ([CopyImage 20], Returned)"
    using copyHandler_targets [OF g1 g2 g3 g4 g5 g6] g7 g8 by simp
  let ?p = "handler_for demo_page 0 0 DEFAULT_OPTIONS 1"
  have p1: "\<not> truthy (opt_get (h_elementOptions ?p) ''value'')"
    by code_simp
  have p2: "(if truthy (opt_get (h_elementOptions ?p) ''target'')
             then querySelectorAll demo_page (opt_get (h_elementOptions ?p) ''target'')
             else Some []) = Some [10]"
    by code_simp
  have p3: "(if truthy (opt_get (h_elementOptions ?p) ''targetChildren'')
             then querySelectorAllIn demo_page (h_copyable ?p)
                    (opt_get (h_elementOptions ?p) ''targetChildren'')
             else Some []) = Some []"
    by code_simp
  have p4: "([10] :: elem list) =
     (if boolVal (opt_get (h_elementOptions ?p) ''multiple'')
      then [10] @ [] else take 1 ([10] @ []))"
    by code_simp
  have p5: "map (elementText demo_page) [10] = map Some [JStr ''Hello'']"
    by code_simp
  have p6: "[] = (if scopeDEBUG initial_page (h_scope ?p)
                 then [ConsoleLog (if boolVal (opt_get (h_elementOptions ?p) ''multiple'')
                                   then CopyingAllTargets ([10] @ [])
                                   else CopyingFirstTarget (hd ([10] @ [])))]
                 else [])"
    by code_simp
  have p7: "boolVal (opt_get (h_elementOptions ?p) ''images'')"
    by code_simp
  have p8: "find (is_img demo_page) [10] = None"
    by code_simp
  have p9: "copyTextToClipboard demo_page
              (JStr (js_join demo_page [JStr ''Hello''] (opt_get (h_elementOptions ?p) ''joinText'')))
            = [ClipboardWriteText (JStr ''Hello'')]"
    by code_simp
  have p: "copyHandler demo_page initial_page ?p = ([ClipboardWriteText (JStr ''Hello'')], Returned)"
    using copyHandler_targets [OF p1 p2 p3 p4 p5 p6] p7 p8 p9 by simp
  show ?thesis
    using g p by blast
qed

text \<open>
  Button 2 is bound with the target \<^verbatim>\<open>#missing\<close>, which matches nothing, and the default
  options otherwise. A click copies nothing and prints nothing: there is no warning.
\<close>

theorem copyHandler_no_targets_counterexample:
  "map_sum id (\<lambda>s. click demo_page s 2)
     (copyClipboard demo_page (JElement 2) [(''target'', JStr ''#missing'')] initial_page)
   = Inr [([], Returned)]"
  by code_simp

section \<open>The elements bound when the document has loaded\<close>

lemma update_fresh: "k \<notin> fst ` set xs \<Longrightarrow> AList.update k v xs = xs @ [(k, v)]"
  by (induction xs) auto

lemma update_middle:
  "k \<notin> fst ` set xs \<Longrightarrow> AList.update k v (xs @ (k, w) # ys) = xs @ (k, v) # ys"
  by (induction xs) auto

lemma fold_update_fresh:
  "distinct (map fst D) \<Longrightarrow> fst ` set D \<inter> fst ` set acc = {} \<Longrightarrow>
     fold (\<lambda>(k, v) acc'. AList.update k v acc') D acc = acc @ D"
proof (induction D arbitrary: acc)
  case Nil
  then show ?case by simp
next
  case (Cons p D)
  obtain k v where p: "p = (k, v)" by (cases p)
  have "k \<notin> fst ` set acc" using Cons.prems(2) p by auto
  then have u: "AList.update k v acc = acc @ [(k, v)]" by (rule update_fresh)
  have "fst ` set D \<inter> fst ` set (acc @ [(k, v)]) = {}"
    using Cons.prems p by auto
  then show ?case
    using Cons.IH [of "acc @ [(k, v)]"] Cons.prems(1) u p by simp
qed

lemma fold_update_same_keys:
  "map fst m = map fst D \<Longrightarrow> distinct (map fst (pre @ D)) \<Longrightarrow>
     fold (\<lambda>(k, v) acc'. AList.update k v acc') m (pre @ D) = pre @ m"
proof (induction m arbitrary: pre D)
  case Nil
  then show ?case by simp
next
  case (Cons p m)
  obtain k v where p: "p = (k, v)" by (cases p)
  from Cons.prems(1) p obtain w D' where D: "D = (k, w) # D'" "map fst m = map fst D'"
    by (cases D) auto
  have "k \<notin> fst ` set pre" using Cons.prems(2) D by auto
  then have u: "AList.update k v (pre @ (k, w) # D') = (pre @ [(k, v)]) @ D'"
    using update_middle [of k pre v w D'] by simp
  have "distinct (map fst ((pre @ [(k, v)]) @ D'))"
    using Cons.prems(2) D by simp
  from Cons.IH [OF D(2) this] show ?case
    using u p D by simp
qed

lemma object_assign_same_keys:
  assumes "distinct (map fst D)" and "map fst m = map fst D"
  shows "object_assign [] [D, m] = m"
proof -
  have "fold (\<lambda>(k, v) acc'. AList.update k v acc') D [] = [] @ D"
    using assms(1) by (intro fold_update_fresh) simp_all
  moreover have "fold (\<lambda>(k, v) acc'. AList.update k v acc') m ([] @ D) = [] @ m"
    using assms by (intro fold_update_same_keys) simp_all
  ultimately show ?thesis
    by (simp add: object_assign_def)
qed

lemma distinct_DEFAULT_OPTIONS: "distinct (map fst DEFAULT_OPTIONS)"
  by (simp add: DEFAULT_OPTIONS_def)

lemma object_assign_merged:
  "object_assign [] [DEFAULT_OPTIONS, mergeOptions d e DEFAULT_OPTIONS p] =
     mergeOptions d e DEFAULT_OPTIONS p"
  by (rule object_assign_same_keys [OF distinct_DEFAULT_OPTIONS map_fst_mergeOptions])

lemma mergeOptions_twice: "mergeOptions d e (mergeOptions d e opts p) p = mergeOptions d e opts p"
  by (induction opts) (auto simp: mergeOptions_def Let_def)

lemma merged_default_key:
  assumes "k \<in> {''target'', ''targetChildren'', ''value''}"
  shows "truthy (opt_get (mergeOptions d e DEFAULT_OPTIONS ''copy'') k) =
           filled d e (snakeToCamel d (''copy-'' @ k))"
proof -
  have key: "k \<in> fst ` set DEFAULT_OPTIONS"
    using assms by (auto simp: DEFAULT_OPTIONS_def)
  have null: "opt_get DEFAULT_OPTIONS k = JNull"
    using assms by (auto simp: DEFAULT_OPTIONS_def opt_get_def)
  show ?thesis
    using opt_get_mergeOptions_copy [OF key, of d e] null
    by (simp add: filled_def split: option.splits)
qed

lemma nothing_to_copy_merged_default:
  "nothing_to_copy (mergeOptions d e DEFAULT_OPTIONS ''copy'') =
     (\<not> filled d e ''copyTarget'' \<and> \<not> filled d e ''copyTargetChildren'' \<and>
      \<not> filled d e ''copyValue'')"
  using merged_default_key [of "''target''" d e] merged_default_key [of "''targetChildren''" d e]
    merged_default_key [of "''value''" d e]
    snakeToCamel_copy_target [of d] snakeToCamel_copy_targetChildren [of d]
    snakeToCamel_copy_value [of d]
  by (simp add: nothing_to_copy_def)

lemma bound_withI:
  "listeners s e = [handler_for d n sc opts e] \<Longrightarrow>
   copyClipboardProp s e = Some (record_for d n sc opts e) \<Longrightarrow> bound_with d opts s e"
  by (simp add: bound_with_def bound_by_def handler_for_def)

lemma bound_withD:
  assumes "bound_with d opts s e"
  shows "\<exists>n sc. listeners s e = [handler_for d n sc opts e] \<and>
            copyClipboardProp s e = Some (record_for d n sc opts e)"
proof -
  from assms obtain h :: handler where "bound_by d (h_scope h) opts 0 s e"
    by (auto simp: bound_with_def split: list.splits)
  from bound_byD [OF this] show ?thesis by blast
qed

lemma bound_with_eq:
  "listeners s' e = listeners s e \<Longrightarrow> copyClipboardProp s' e = copyClipboardProp s e \<Longrightarrow>
     bound_with d opts s' e = bound_with d opts s e"
  by (simp add: bound_with_def bound_by_def split: list.splits)

text \<open>One call of the loop of the listener: \<^verbatim>\<open>copyClipboard\<close> on one element, with the
  options merged from its attributes.\<close>

lemma auto_call:
  assumes "page_ok s"
  shows "\<exists>s'. copyClipboard d (JElement c) (mergeOptions d c DEFAULT_OPTIONS ''copy'') s = Inr s' \<and>
     page_ok s' \<and>
     (\<forall>e. e \<noteq> c \<longrightarrow>
        listeners s' e = listeners s e \<and> copyClipboardProp s' e = copyClipboardProp s e) \<and>
     (if isHTMLElement d c \<and> \<not> nothing_to_copy (mergeOptions d c DEFAULT_OPTIONS ''copy'')
      then bound_with d (mergeOptions d c DEFAULT_OPTIONS ''copy'') s' c
      else listeners s' c = listeners s c \<and> copyClipboardProp s' c = copyClipboardProp s c)"
proof -
  let ?m = "mergeOptions d c DEFAULT_OPTIONS ''copy''"
  let ?s0 = "enter_call ?m s"
  have ok0: "page_ok ?s0" using assms by (simp add: enter_call_page_ok)
  show ?thesis
  proof (cases "isHTMLElement d c")
    case False
    then have f: "find_elements d (JElement c) = Some []"
      by (simp add: find_elements_def)
    show ?thesis
      using copyClipboard_found [OF f, of ?m s] False ok0
      by (simp add: object_assign_merged WARNING_page_ok)
  next
    case True
    then have f: "find_elements d (JElement c) = Some [c]"
      by (simp add: find_elements_def)
    let ?s' = "bind_copyable d (next_scope s) ?m c ?s0"
    have run: "copyClipboard d (JElement c) ?m s = Inr ?s'"
      using copyClipboard_found [OF f, of ?m s] by (simp add: object_assign_merged)
    have ok: "page_ok ?s'" using ok0 by (rule bind_page_ok)
    have other: "\<forall>e. e \<noteq> c \<longrightarrow>
        listeners ?s' e = listeners s e \<and> copyClipboardProp ?s' e = copyClipboardProp s e"
      using bind_other [of _ c d "next_scope s" ?m ?s0] by simp
    have self: "if \<not> nothing_to_copy ?m
      then bound_with d ?m ?s' c
      else listeners ?s' c = listeners s c \<and> copyClipboardProp ?s' c = copyClipboardProp s c"
    proof (cases "nothing_to_copy ?m")
      case True
      then have "nothing_to_copy (mergeOptions d c ?m ''copy'')"
        by (simp add: mergeOptions_twice)
      from bind_skipped [OF this, of "next_scope s" ?s0] True show ?thesis by simp
    next
      case False
      then have n: "\<not> nothing_to_copy (mergeOptions d c ?m ''copy'')"
        by (simp add: mergeOptions_twice)
      have wb: "well_bound ?s0 c" using ok0 by (simp add: page_ok_def)
      from bind_installed [OF wb n, of "next_scope s"] False show ?thesis
        by (auto intro: bound_withI)
    qed
    show ?thesis
      using run ok other self True by simp
  qed
qed

lemma forEach_auto:
  "page_ok s \<Longrightarrow>
   \<exists>s'. forEach (\<lambda>element. copyClipboard d (JElement element)
                     (mergeOptions d element DEFAULT_OPTIONS ''copy'')) es s = Inr s' \<and>
     page_ok s' \<and>
     (\<forall>e. if e \<in> set es \<and> isHTMLElement d e \<and>
              \<not> nothing_to_copy (mergeOptions d e DEFAULT_OPTIONS ''copy'')
           then bound_with d (mergeOptions d e DEFAULT_OPTIONS ''copy'') s' e
           else listeners s' e = listeners s e \<and> copyClipboardProp s' e = copyClipboardProp s e)"
proof (induction es arbitrary: s)
  case Nil
  then show ?case by simp
next
  case (Cons c cs)
  let ?f = "\<lambda>element. copyClipboard d (JElement element)
                     (mergeOptions d element DEFAULT_OPTIONS ''copy'')"
  let ?good = "\<lambda>e. isHTMLElement d e \<and> \<not> nothing_to_copy (mergeOptions d e DEFAULT_OPTIONS ''copy'')"
  from auto_call [OF Cons.prems, of d c] obtain s1 where
    s1: "?f c s = Inr s1" and ok1: "page_ok s1"
    and other: "\<forall>e. e \<noteq> c \<longrightarrow>
        listeners s1 e = listeners s e \<and> copyClipboardProp s1 e = copyClipboardProp s e"
    and self: "if ?good c then bound_with d (mergeOptions d c DEFAULT_OPTIONS ''copy'') s1 c
      else listeners s1 c = listeners s c \<and> copyClipboardProp s1 c = copyClipboardProp s c"
    by blast
  from Cons.IH [OF ok1] obtain s' where
    s': "forEach ?f cs s1 = Inr s'" and ok': "page_ok s'"
    and rest: "\<forall>e. if e \<in> set cs \<and> ?good e
           then bound_with d (mergeOptions d e DEFAULT_OPTIONS ''copy'') s' e
           else listeners s' e = listeners s1 e \<and> copyClipboardProp s' e = copyClipboardProp s1 e"
    by blast
  have run: "forEach ?f (c # cs) s = Inr s'"
    using s1 s' by simp
  have "if e \<in> set (c # cs) \<and> ?good e
           then bound_with d (mergeOptions d e DEFAULT_OPTIONS ''copy'') s' e
           else listeners s' e = listeners s e \<and> copyClipboardProp s' e = copyClipboardProp s e"
    for e
  proof (cases "e \<in> set cs \<and> ?good e")
    case True
    then show ?thesis using rest by simp
  next
    case False
    then have same: "listeners s' e = listeners s1 e \<and> copyClipboardProp s' e = copyClipboardProp s1 e"
      using rest by (auto split: if_splits)
    show ?thesis
    proof (cases "e = c")
      case True
      have "bound_with d (mergeOptions d c DEFAULT_OPTIONS ''copy'') s' c =
            bound_with d (mergeOptions d c DEFAULT_OPTIONS ''copy'') s1 c"
        using same True by (intro bound_with_eq) simp_all
      then show ?thesis
        using self same True by (auto split: if_splits)
    next
      case ne: False
      then show ?thesis
        using other same False by auto
    qed
  qed
  then show ?case
    using run ok' by blast
qed

text \<open>
  C6 (as amended). When \<^verbatim>\<open>DOMContentLoaded\<close> fires on a well-formed page,
  \<^verbatim>\<open>copyClipboard\<close> is called on every element that the selector
  \<^verbatim>\<open>[data-copy-target],[data-copy-value],[data-copy-target-children]\<close> matches, with the
  options merged from its \<^verbatim>\<open>data-copy-*\<close> attributes over the defaults. A matched
  \<^verbatim>\<open>HTMLElement\<close> on which one of the three attributes has a value that is not empty ends
  with exactly one click listener, the copy handler for its merged options, recorded in
  its \<^verbatim>\<open>_copyClipboard\<close> property. Any other matched element keeps the listeners and the
  property it had.
\<close>

theorem DOMContentLoaded_binds:
  assumes "page_ok s" and "querySelectorAll d (JStr AUTO_SELECTOR) = Some es"
  shows "\<exists>s'. onDOMContentLoaded d s = Inr s' \<and> page_ok s' \<and>
     (\<forall>e \<in> set es.
        if isHTMLElement d e \<and>
           (filled d e ''copyTarget'' \<or> filled d e ''copyTargetChildren'' \<or> filled d e ''copyValue'')
        then (\<exists>n sc. listeners s' e =
                        [\<lparr>h_id = n, h_scope = sc, h_copyable = e,
                          h_elementOptions = mergeOptions d e DEFAULT_OPTIONS ''copy'',
                          h_options = mergeOptions d e DEFAULT_OPTIONS ''copy''\<rparr>] \<and>
                     copyClipboardProp s' e =
                        Some \<lparr>cr_options = mergeOptions d e DEFAULT_OPTIONS ''copy'',
                              cr_copyHandler =
                                \<lparr>h_id = n, h_scope = sc, h_copyable = e,
                                  h_elementOptions = mergeOptions d e DEFAULT_OPTIONS ''copy'',
                                  h_options = mergeOptions d e DEFAULT_OPTIONS ''copy''\<rparr>,
                              cr_version = VERSION\<rparr>)
        else listeners s' e = listeners s e \<and> copyClipboardProp s' e = copyClipboardProp s e)"
proof -
  from forEach_auto [OF assms(1), of d es] obtain s' where
    run: "forEach (\<lambda>element. copyClipboard d (JElement element)
                     (mergeOptions d element DEFAULT_OPTIONS ''copy'')) es s = Inr s'"
    and ok: "page_ok s'"
    and each: "\<forall>e. if e \<in> set es \<and> isHTMLElement d e \<and>
              \<not> nothing_to_copy (mergeOptions d e DEFAULT_OPTIONS ''copy'')
           then bound_with d (mergeOptions d e DEFAULT_OPTIONS ''copy'') s' e
           else listeners s' e = listeners s e \<and> copyClipboardProp s' e = copyClipboardProp s e"
    by blast
  have "onDOMContentLoaded d s = Inr s'"
    using run assms(2) by (simp add: onDOMContentLoaded_def)
  moreover have "if isHTMLElement d e \<and>
           (filled d e ''copyTarget'' \<or> filled d e ''copyTargetChildren'' \<or> filled d e ''copyValue'')
        then (\<exists>n sc. listeners s' e =
                        [\<lparr>h_id = n, h_scope = sc, h_copyable = e,
                          h_elementOptions = mergeOptions d e DEFAULT_OPTIONS ''copy'',
                          h_options = mergeOptions d e DEFAULT_OPTIONS ''copy''\<rparr>] \<and>
                     copyClipboardProp s' e =
                        Some \<lparr>cr_options = mergeOptions d e DEFAULT_OPTIONS ''copy'',
                              cr_copyHandler =
                                \<lparr>h_id = n, h_scope = sc, h_copyable = e,
                                  h_elementOptions = mergeOptions d e DEFAULT_OPTIONS ''copy'',
                                  h_options = mergeOptions d e DEFAULT_OPTIONS ''copy''\<rparr>,
                              cr_version = VERSION\<rparr>)
        else listeners s' e = listeners s e \<and> copyClipboardProp s' e = copyClipboardProp s e"
    if e: "e \<in> set es" for e
  proof (cases "isHTMLElement d e \<and> \<not> nothing_to_copy (mergeOptions d e DEFAULT_OPTIONS ''copy'')")
    case True
    then have "bound_with d (mergeOptions d e DEFAULT_OPTIONS ''copy'') s' e"
      using each e by simp
    from bound_withD [OF this] show ?thesis
      using True
      by (simp add: nothing_to_copy_merged_default handler_for_def record_for_def mergeOptions_twice)
  next
    case False
    then have "listeners s' e = listeners s e \<and> copyClipboardProp s' e = copyClipboardProp s e"
      using each by (auto split: if_splits)
    then show ?thesis
      using False by (auto simp: nothing_to_copy_merged_default)
  qed
  ultimately show ?thesis
    using ok by blast
qed

text \<open>On the page with four buttons the selector matches buttons 1, 3 and 4. Buttons 1 and
  3 are bound; a click on button 3 copies its value.\<close>

theorem DOMContentLoaded_binds_witness:
  "\<exists>s'. onDOMContentLoaded demo_page initial_page = Inr s' \<and>
     length (listeners s' 1) = 1 \<and> length (listeners s' 3) = 1 \<and> listeners s' 4 = []"
proof -
  have q: "querySelectorAll demo_page (JStr AUTO_SELECTOR) = Some [1, 3, 4]"
    by code_simp
  have h: "isHTMLElement demo_page 1" "isHTMLElement demo_page 3" "isHTMLElement demo_page 4"
    by (simp_all add: demo_page_def)
  have f1: "filled demo_page 1 ''copyTarget''"
    by code_simp
  have f3: "filled demo_page 3 ''copyValue''"
    by code_simp
  have f4: "\<not> filled demo_page 4 ''copyTarget''" "\<not> filled demo_page 4 ''copyTargetChildren''"
    "\<not> filled demo_page 4 ''copyValue''"
    by code_simp+
  have i: "listeners initial_page 4 = []"
    by (simp add: initial_page_def)
  from DOMContentLoaded_binds [OF page_ok_initial q]
  obtain s' where s': "onDOMContentLoaded demo_page initial_page = Inr s'"
    and each: "\<forall>e \<in> set [1, 3, 4].
        if isHTMLElement demo_page e \<and>
           (filled demo_page e ''copyTarget'' \<or> filled demo_page e ''copyTargetChildren'' \<or>
            filled demo_page e ''copyValue'')
        then (\<exists>n sc. listeners s' e =
                        [\<lparr>h_id = n, h_scope = sc, h_copyable = e,
                          h_elementOptions = mergeOptions demo_page e DEFAULT_OPTIONS ''copy'',
                          h_options = mergeOptions demo_page e DEFAULT_OPTIONS ''copy''\<rparr>] \<and>
                     copyClipboardProp s' e =
                        Some \<lparr>cr_options = mergeOptions demo_page e DEFAULT_OPTIONS ''copy'',
                              cr_copyHandler =
                                \<lparr>h_id = n, h_scope = sc, h_copyable = e,
                                  h_elementOptions = mergeOptions demo_page e DEFAULT_OPTIONS ''copy'',
                                  h_options = mergeOptions demo_page e DEFAULT_OPTIONS ''copy''\<rparr>,
                              cr_version = VERSION\<rparr>)
        else listeners s' e = listeners initial_page e \<and>
             copyClipboardProp s' e = copyClipboardProp initial_page e"
    by blast
  have a: "length (listeners s' 1) = 1"
    using each h(1) f1 by auto
  have b: "length (listeners s' 3) = 1"
    using each h(2) f3 by auto
  have c: "listeners s' 4 = []"
    using each f4 i by auto
  show ?thesis
    using s' a b c by blast
qed

text \<open>
  Button 4 carries \<^verbatim>\<open>data-copy-target\<close> with an empty value. The selector matches it, and
  after the listener has run it has no click listener and no \<^verbatim>\<open>_copyClipboard\<close> property.
\<close>

theorem DOMContentLoaded_empty_attribute_counterexample:
  "querySelectorAll demo_page (JStr AUTO_SELECTOR) = Some [1, 3, 4] \<and>
   dataset demo_page 4 ''copyTarget'' = Some [] \<and>
   map_sum id (\<lambda>s. (listeners s 4, copyClipboardProp s 4))
     (onDOMContentLoaded demo_page initial_page) = Inr ([], None)"
  by code_simp

end
